theory Spec2Isabelle
  imports Main "HOL-Library.Sublist"
begin

section \<open>Go strings and formatting\<close>

text \<open>
  A Go \<^verbatim>\<open>string\<close> is a sequence of bytes; it is modelled as \<^typ>\<open>string\<close> (a list of
  8-bit characters), so \<^const>\<open>length\<close> is Go's \<^verbatim>\<open>len\<close> and \<^const>\<open>take\<close> is the
  slice \<^verbatim>\<open>s[:n]\<close>. A Go \<^verbatim>\<open>error\<close> built with \<^verbatim>\<open>fmt.Errorf\<close> is its message
  text; \<^verbatim>\<open>nil\<close> is \<^const>\<open>None\<close>, and a function returning \<^verbatim>\<open>(T, error)\<close> returns
  \<open>error + T\<close> with \<^const>\<open>Inl\<close> carrying the message.
\<close>

type_synonym error = string

text \<open>\<^verbatim>\<open>strings.Contains(s, substr)\<close>.\<close>

fun Contains :: "string \<Rightarrow> string \<Rightarrow> bool" where
  "Contains [] substr = (substr = [])"
| "Contains (c # cs) substr = (prefix substr (c # cs) \<or> Contains cs substr)"

text \<open>\<^verbatim>\<open>%v\<close> of a \<^verbatim>\<open>[]string\<close> prints the elements separated by one space, in
  square brackets.\<close>

fun join_with :: "string list \<Rightarrow> string \<Rightarrow> string" where
  "join_with [] sep = []"
| "join_with [x] sep = x"
| "join_with (x # y # ys) sep = x @ sep @ join_with (y # ys) sep"

definition fmt_v :: "string list \<Rightarrow> string" where
  "fmt_v xs = ''['' @ join_with xs '' '' @ '']''"

text \<open>\<^verbatim>\<open>%d\<close>: the decimal digits of an integer, most significant first, with a
  minus sign for a negative one.\<close>

definition digit_char :: "nat \<Rightarrow> char" where
  "digit_char d = ''0123456789'' ! d"

function fmt_nat :: "nat \<Rightarrow> string" where
  "fmt_nat n = (if n < 10 then [digit_char n] else fmt_nat (n div 10) @ [digit_char (n mod 10)])"
  by pat_completeness auto
termination
  by (relation "measure id") auto

declare fmt_nat.simps [simp del]

definition fmt_d :: "int \<Rightarrow> string" where
  "fmt_d i = (if i < 0 then CHR ''-'' # fmt_nat (nat (- i)) else fmt_nat (nat i))"

section \<open>The API request client (pkg/gemini/client.go)\<close>

definition ModelName :: string where
  "ModelName = ''gemini-3-pro-image-preview''"

definition ModelNameFrugal :: string where
  "ModelNameFrugal = ''gemini-2.5-flash-image''"

definition BaseURL :: string where
  "BaseURL = ''https://generativelanguage.googleapis.com/v1beta/models''"

definition SupportedAspectRatios :: "string list" where
  "SupportedAspectRatios =
     [''1:1'', ''16:9'', ''9:16'', ''4:3'', ''3:4'', ''3:2'', ''2:3'', ''21:9'', ''5:4'', ''4:5'']"

text \<open>The client; its \<^verbatim>\<open>httpClient\<close> (a fixed five-minute timeout) is part of the
  transport and not a field here.\<close>

record Client =
  apiKey :: string
  model :: string
  baseURL :: string

text \<open>The request and response structs. A Go pointer field is an \<^typ>\<open>'a option\<close>.\<close>

record ImageConfig =
  AspectRatio :: string
  ImageSize :: string

record GenerationConfig =
  ImageConfig :: "ImageConfig option"

record InlineData =
  MimeType :: string
  Data :: string

record Part =
  Text :: string
  InlineData :: "InlineData option"

record Content =
  Role :: string
  Parts :: "Part list"

record GenerateRequest =
  Contents :: "Content list"
  GenerationConfig :: "GenerationConfig option"

record Candidate =
  Content :: Content

record ErrorInfo =
  Code :: int
  Message :: string
  Status :: string

record GenerateResponse =
  Candidates :: "Candidate list"
  Error :: "ErrorInfo option"

subsection \<open>The JSON encoding of a request\<close>

text \<open>
  \<^verbatim>\<open>json.Marshal\<close> writes a string as valid UTF-8: it decodes the bytes rune by rune as
  \<^verbatim>\<open>utf8.DecodeRuneInString\<close> does, and a byte that does not start a well-formed
  sequence goes on the wire as the replacement character U+FFFD.

  \<open>rune_size\<close> is the width of the well-formed sequence at the head of a string, or 0
  when there is none; the ranges of the second byte are those of package
  \<^verbatim>\<open>unicode/utf8\<close> (no overlong forms, no surrogates, nothing above U+10FFFF).
\<close>

definition continuation :: "char \<Rightarrow> bool" where
  "continuation c = (0x80 \<le> (of_char c :: nat) \<and> (of_char c :: nat) \<le> 0xBF)"

definition second_ok :: "nat \<Rightarrow> char \<Rightarrow> bool" where
  "second_ok b c =
     ((if b = 0xE0 then 0xA0 else if b = 0xF0 then 0x90 else 0x80) \<le> (of_char c :: nat)
      \<and> (of_char c :: nat) \<le> (if b = 0xED then 0x9F else if b = 0xF4 then 0x8F else 0xBF))"

fun rune_size :: "string \<Rightarrow> nat" where
  "rune_size [] = 0"
| "rune_size (c # cs) =
     (let b = (of_char c :: nat)
      in if b < 0x80 then 1
         else if 0xC2 \<le> b \<and> b \<le> 0xDF then
           (case cs of c1 # _ \<Rightarrow> if continuation c1 then 2 else 0 | _ \<Rightarrow> 0)
         else if 0xE0 \<le> b \<and> b \<le> 0xEF then
           (case cs of
              c1 # c2 # _ \<Rightarrow> if second_ok b c1 \<and> continuation c2 then 3 else 0
            | _ \<Rightarrow> 0)
         else if 0xF0 \<le> b \<and> b \<le> 0xF4 then
           (case cs of
              c1 # c2 # c3 # _ \<Rightarrow>
                if second_ok b c1 \<and> continuation c2 \<and> continuation c3 then 4 else 0
            | _ \<Rightarrow> 0)
         else 0)"

declare rune_size.simps(2) [simp del]

text \<open>The string that the receiver reads back: well-formed sequences are kept, every
  other byte becomes the three bytes of U+FFFD.\<close>

function wire_string :: "string \<Rightarrow> string" where
  "wire_string [] = []"
| "wire_string (c # cs) =
     (if rune_size (c # cs) = 0 then [CHR 0xEF, CHR 0xBF, CHR 0xBD] @ wire_string cs
      else c # take (rune_size (c # cs) - 1) cs
           @ wire_string (drop (rune_size (c # cs) - 1) cs))"
  by pat_completeness auto
termination
  by (relation "measure length") auto

text \<open>\<^verbatim>\<open>utf8.ValidString\<close>.\<close>

function valid_utf8 :: "string \<Rightarrow> bool" where
  "valid_utf8 [] = True"
| "valid_utf8 (c # cs) =
     (rune_size (c # cs) \<noteq> 0 \<and> valid_utf8 (drop (rune_size (c # cs) - 1) cs))"
  by pat_completeness auto
termination
  by (relation "measure length") auto

text \<open>
  \<^verbatim>\<open>json.Marshal\<close> follows the struct tags: a field tagged \<^verbatim>\<open>omitempty\<close> is left out
  of the object when it is the empty string or a nil pointer. The encoded body is kept
  as the tree that the receiver decodes; an object is the list of its fields in
  declaration order.
\<close>

datatype json = JString string | JArray "json list" | JObject "(string \<times> json) list"

definition marshal_string :: "string \<Rightarrow> json" where
  "marshal_string s = JString (wire_string s)"

definition omitempty :: "string \<Rightarrow> string \<Rightarrow> (string \<times> json) list" where
  "omitempty name s = (if s = [] then [] else [(name, marshal_string s)])"

definition omitnil :: "string \<Rightarrow> ('a \<Rightarrow> json) \<Rightarrow> 'a option \<Rightarrow> (string \<times> json) list" where
  "omitnil name enc p = (case p of None \<Rightarrow> [] | Some v \<Rightarrow> [(name, enc v)])"

definition marshal_ImageConfig :: "ImageConfig \<Rightarrow> json" where
  "marshal_ImageConfig ic =
     JObject (omitempty ''aspectRatio'' (AspectRatio ic) @ omitempty ''imageSize'' (ImageSize ic))"

definition marshal_GenerationConfig :: "GenerationConfig \<Rightarrow> json" where
  "marshal_GenerationConfig g =
     JObject (omitnil ''imageConfig'' marshal_ImageConfig (ImageConfig g))"

definition marshal_InlineData :: "InlineData \<Rightarrow> json" where
  "marshal_InlineData d =
     JObject [(''mimeType'', marshal_string (MimeType d)), (''data'', marshal_string (Data d))]"

definition marshal_Part :: "Part \<Rightarrow> json" where
  "marshal_Part p =
     JObject (omitempty ''text'' (Text p) @ omitnil ''inlineData'' marshal_InlineData (InlineData p))"

definition marshal_Content :: "Content \<Rightarrow> json" where
  "marshal_Content c =
     JObject [(''role'', marshal_string (Role c)),
              (''parts'', JArray (map marshal_Part (Parts c)))]"

definition marshal_GenerateRequest :: "GenerateRequest \<Rightarrow> json" where
  "marshal_GenerateRequest r =
     JObject ((''contents'', JArray (map marshal_Content (Contents r)))
              # omitnil ''generationConfig'' marshal_GenerationConfig (GenerationConfig r))"

text \<open>Reading a field of an encoded object, and a path of fields.\<close>

fun field :: "string \<Rightarrow> json \<Rightarrow> json option" where
  "field name (JObject kvs) = map_of kvs name"
| "field name (JString s) = None"
| "field name (JArray xs) = None"

fun at_path :: "string list \<Rightarrow> json \<Rightarrow> json option" where
  "at_path [] j = Some j"
| "at_path (name # names) j = (case field name j of None \<Rightarrow> None | Some j' \<Rightarrow> at_path names j')"

text \<open>Whether a field of that name occurs anywhere in an encoded value.\<close>

fun has_field :: "string \<Rightarrow> json \<Rightarrow> bool" where
  "has_field name (JString s) = False"
| "has_field name (JArray xs) = list_ex (has_field name) xs"
| "has_field name (JObject kvs) = list_ex (\<lambda>kv. fst kv = name \<or> has_field name (snd kv)) kvs"

subsection \<open>Validation and request construction\<close>

text \<open>\<^verbatim>\<open>ValidateAspectRatio\<close>: the empty string is accepted before the list is
  searched.\<close>

definition ValidateAspectRatio :: "string \<Rightarrow> error option" where
  "ValidateAspectRatio aspectRatio =
     (if aspectRatio = [] then None
      else if list_ex (\<lambda>supported. aspectRatio = supported) SupportedAspectRatios then None
      else Some (''unsupported aspect ratio: '' @ aspectRatio @ ''. Supported: ''
                 @ fmt_v SupportedAspectRatios))"

text \<open>An outgoing HTTP request: always a POST with a JSON content type, so only the
  URL and the body vary.\<close>

record http_request =
  URL :: string
  Body :: json

text \<open>The loop of \<^verbatim>\<open>GenerateContentWithFullOptions\<close> that appends one inline part
  per non-empty image.\<close>

fun image_parts :: "string list \<Rightarrow> Part list" where
  "image_parts [] = []"
| "image_parts (imageBase64 # rest) =
     (if imageBase64 \<noteq> []
      then \<lparr>Text = [], InlineData = Some \<lparr>MimeType = ''image/png'', Data = imageBase64\<rparr>\<rparr>
           # image_parts rest
      else image_parts rest)"

text \<open>The request body built by \<^verbatim>\<open>GenerateContentWithFullOptions\<close> (the struct
  \<^verbatim>\<open>reqBody\<close> before it is marshalled): the image size is set only when the client's
  model is not the frugal one.\<close>

definition reqBody :: "Client \<Rightarrow> string \<Rightarrow> string list \<Rightarrow> string \<Rightarrow> string \<Rightarrow> GenerateRequest" where
  "reqBody c prompt imagesBase64 resolution aspectRatio =
     (let parts = \<lparr>Text = prompt, InlineData = None\<rparr> # image_parts imagesBase64;
          imageConfig = \<lparr>AspectRatio = aspectRatio, ImageSize = []\<rparr>;
          imageConfig' =
            (if model c \<noteq> ModelNameFrugal
             then imageConfig\<lparr>ImageSize := (if resolution = [] then ''4K'' else resolution)\<rparr>
             else imageConfig)
      in \<lparr>Contents = [\<lparr>Role = ''user'', Parts = parts\<rparr>],
          GenerationConfig = Some \<lparr>ImageConfig = Some imageConfig'\<rparr>\<rparr>)"

text \<open>The URL, with the defaults for an empty model or base URL.\<close>

definition request_url :: "Client \<Rightarrow> string" where
  "request_url c =
     (let m = (if model c = [] then ModelName else model c);
          b = (if baseURL c = [] then BaseURL else baseURL c)
      in b @ ''/'' @ m @ '':generateContent?key='' @ apiKey c)"


subsection \<open>What the client takes from its host\<close>

text \<open>
  The environment, the HTTP transport and the library routines whose tables are not part
  of the repository are taken as parameters:
  \<^item> \<open>Getenv\<close> is \<^verbatim>\<open>os.Getenv\<close> (an unset variable reads as the empty string);
  \<^item> \<open>NewRequest\<close> is the error, if any, of \<^verbatim>\<open>http.NewRequest\<close> for a URL;
  \<^item> \<open>Do\<close> is the round trip \<^verbatim>\<open>httpClient.Do\<close> followed by \<^verbatim>\<open>io.ReadAll\<close>;
  \<^item> \<open>Unmarshal\<close> is \<^verbatim>\<open>json.Unmarshal\<close> into a \<^verbatim>\<open>GenerateResponse\<close>;
  \<^item> \<open>MapToLower\<close> is \<^verbatim>\<open>strings.Map(unicode.ToLower, s)\<close>, which
    \<^verbatim>\<open>strings.ToLower\<close> applies to a string holding a byte outside ASCII.
\<close>

datatype http_result = SendFailed error | ReadFailed error | Responded int string

record runtime =
  Getenv :: "string \<Rightarrow> string"
  NewRequest :: "string \<Rightarrow> error option"
  Do :: "http_request \<Rightarrow> http_result"
  Unmarshal :: "string \<Rightarrow> error + GenerateResponse"
  MapToLower :: "string \<Rightarrow> string"

text \<open>\<^verbatim>\<open>strings.ToLower\<close>: an ASCII-only string is lowered byte by byte; any other
  string goes through the Unicode mapping.\<close>

definition lower_byte :: "char \<Rightarrow> char" where
  "lower_byte c =
     (case map_of (zip ''ABCDEFGHIJKLMNOPQRSTUVWXYZ'' ''abcdefghijklmnopqrstuvwxyz'') c of
        None \<Rightarrow> c | Some l \<Rightarrow> l)"

definition ToLower :: "(string \<Rightarrow> string) \<Rightarrow> string \<Rightarrow> string" where
  "ToLower unicode s = (if list_all (\<lambda>c. \<not> digit7 c) s then map lower_byte s else unicode s)"

subsection \<open>Credential resolution and client construction\<close>

text \<open>The loop of \<^verbatim>\<open>getAPIKey\<close> over the four variable names.\<close>

fun first_set :: "(string \<Rightarrow> string) \<Rightarrow> string list \<Rightarrow> string" where
  "first_set getenv [] = []"
| "first_set getenv (key # rest) =
     (let val = getenv key in if val \<noteq> [] then val else first_set getenv rest)"

definition keys :: "string list" where
  "keys = [''NANOBANANA_GEMINI_API_KEY'', ''NANOBANANA_GOOGLE_API_KEY'',
           ''GEMINI_API_KEY'', ''GOOGLE_API_KEY'']"

definition getAPIKey :: "(string \<Rightarrow> string) \<Rightarrow> string" where
  "getAPIKey getenv = first_set getenv keys"

definition NewClientWithModel :: "(string \<Rightarrow> string) \<Rightarrow> string \<Rightarrow> error + Client" where
  "NewClientWithModel getenv m =
     (let key = getAPIKey getenv
      in if key = []
         then Inl (''API key not found. Please set one of: NANOBANANA_GEMINI_API_KEY, ''
                   @ ''NANOBANANA_GOOGLE_API_KEY, GEMINI_API_KEY, or GOOGLE_API_KEY'')
         else Inr \<lparr>apiKey = key, model = m, baseURL = BaseURL\<rparr>)"

definition NewClient :: "(string \<Rightarrow> string) \<Rightarrow> error + Client" where
  "NewClient getenv = NewClientWithModel getenv ModelName"

definition NewFrugalClient :: "(string \<Rightarrow> string) \<Rightarrow> error + Client" where
  "NewFrugalClient getenv = NewClientWithModel getenv ModelNameFrugal"

subsection \<open>Response handling\<close>

text \<open>\<^verbatim>\<open>extractImageData\<close>: one pass over the parts of the first candidate; each part
  is tested for inline data and then for a long text without a space or a newline.\<close>

fun scan_parts :: "Part list \<Rightarrow> string" where
  "scan_parts [] = []"
| "scan_parts (part # rest) =
     (case InlineData part of
        Some d \<Rightarrow>
          if Data d \<noteq> [] then Data d
          else if Text part \<noteq> [] \<and> length (Text part) > 1000
                  \<and> \<not> Contains (Text part) '' '' \<and> \<not> Contains (Text part) [CHR 0x0A]
               then Text part
               else scan_parts rest
      | None \<Rightarrow>
          if Text part \<noteq> [] \<and> length (Text part) > 1000
             \<and> \<not> Contains (Text part) '' '' \<and> \<not> Contains (Text part) [CHR 0x0A]
          then Text part
          else scan_parts rest)"

definition extractImageData :: "GenerateResponse \<Rightarrow> string" where
  "extractImageData result =
     (case Candidates result of
        [] \<Rightarrow> []
      | candidate # _ \<Rightarrow> scan_parts (Parts (Content candidate)))"

text \<open>\<^verbatim>\<open>handleError\<close>: the message is the parsed error's message when the body parses
  and carries one, else the raw body; the status code selects the error.\<close>

definition bodyStr :: "(string \<Rightarrow> error + GenerateResponse) \<Rightarrow> string \<Rightarrow> string" where
  "bodyStr unmarshal raw =
     (case unmarshal raw of
        Inr errResp \<Rightarrow> (case Error errResp of Some e \<Rightarrow> Message e | None \<Rightarrow> raw)
      | Inl _ \<Rightarrow> raw)"

definition handleError :: "runtime \<Rightarrow> int \<Rightarrow> string \<Rightarrow> error" where
  "handleError rt statusCode raw =
     (let msg = bodyStr (Unmarshal rt) raw
      in if statusCode = 400 then
           (if Contains msg ''safety'' then ''request rejected due to safety concerns''
            else ''malformed request: '' @ msg)
         else if statusCode = 403 then
           (if Contains (ToLower (MapToLower rt) msg) ''api key not valid'' then ''invalid API key''
            else if Contains (ToLower (MapToLower rt) msg) ''quota'' then ''API quota exceeded''
            else ''authentication failed: '' @ msg)
         else if statusCode = 500 then ''service error: '' @ msg
         else ''HTTP '' @ fmt_d statusCode @ '': '' @ msg)"

subsection \<open>Dispatch\<close>

text \<open>
  \<^verbatim>\<open>GenerateContentWithFullOptions\<close> up to the creation of the HTTP request: the aspect
  ratio is validated first, then the body and the URL are built. (\<^verbatim>\<open>json.Marshal\<close>
  cannot fail on these structs; the debug output to standard error is not modelled.)
\<close>

definition build_request ::
  "runtime \<Rightarrow> Client \<Rightarrow> string \<Rightarrow> string list \<Rightarrow> string \<Rightarrow> string \<Rightarrow> error + http_request" where
  "build_request rt c prompt imagesBase64 resolution aspectRatio =
     (case ValidateAspectRatio aspectRatio of
        Some err \<Rightarrow> Inl err
      | None \<Rightarrow>
          (let jsonData = marshal_GenerateRequest (reqBody c prompt imagesBase64 resolution aspectRatio);
               u = request_url c
           in case NewRequest rt u of
                Some err \<Rightarrow> Inl (''failed to create request: '' @ err)
              | None \<Rightarrow> Inr \<lparr>URL = u, Body = jsonData\<rparr>))"

text \<open>What the client does with the outcome of the round trip.\<close>

definition read_response :: "runtime \<Rightarrow> http_result \<Rightarrow> error + string" where
  "read_response rt r =
     (case r of
        SendFailed err \<Rightarrow> Inl (''failed to send request: '' @ err)
      | ReadFailed err \<Rightarrow> Inl (''failed to read response: '' @ err)
      | Responded statusCode raw \<Rightarrow>
          if statusCode \<noteq> 200 then Inl (handleError rt statusCode raw)
          else (case Unmarshal rt raw of
                  Inl err \<Rightarrow> Inl (''failed to unmarshal response: '' @ err)
                | Inr result \<Rightarrow>
                    (case Error result of
                       Some e \<Rightarrow> Inl (''API error ('' @ fmt_d (Code e) @ ''): '' @ Message e)
                     | None \<Rightarrow>
                         (let imageData = extractImageData result
                          in if imageData = [] then Inl ''no image data found in response''
                             else Inr imageData))))"

text \<open>The whole call: its result, and the list of requests it put on the wire.\<close>

definition GenerateContentWithFullOptions ::
  "runtime \<Rightarrow> Client \<Rightarrow> string \<Rightarrow> string list \<Rightarrow> string \<Rightarrow> string
     \<Rightarrow> (error + string) \<times> http_request list" where
  "GenerateContentWithFullOptions rt c prompt imagesBase64 resolution aspectRatio =
     (case build_request rt c prompt imagesBase64 resolution aspectRatio of
        Inl err \<Rightarrow> (Inl err, [])
      | Inr req \<Rightarrow> (read_response rt (Do rt req), [req]))"

definition GenerateContentWithImages ::
  "runtime \<Rightarrow> Client \<Rightarrow> string \<Rightarrow> string list \<Rightarrow> string \<Rightarrow> (error + string) \<times> http_request list" where
  "GenerateContentWithImages rt c prompt imagesBase64 aspectRatio =
     GenerateContentWithFullOptions rt c prompt imagesBase64 [] aspectRatio"

definition GenerateContentWithResolution ::
  "runtime \<Rightarrow> Client \<Rightarrow> string \<Rightarrow> string \<Rightarrow> string \<Rightarrow> (error + string) \<times> http_request list" where
  "GenerateContentWithResolution rt c prompt resolution aspectRatio =
     GenerateContentWithFullOptions rt c prompt [] resolution aspectRatio"


section \<open>The output namer and writer (pkg/filehandler/filehandler.go)\<close>

subsection \<open>Filename derivation\<close>

text \<open>The class \<^verbatim>\<open>\s\<close> of Go's regular expressions: tab, newline, form feed,
  carriage return and space.\<close>

definition is_space :: "char \<Rightarrow> bool" where
  "is_space c = (c \<in> set [CHR 0x09, CHR 0x0A, CHR 0x0C, CHR 0x0D, CHR '' ''])"

text \<open>The characters that the pattern \<^verbatim>\<open>[^a-z0-9\s-]\<close> does not match. Every byte
  of a rune outside ASCII, and every byte that is not valid UTF-8, is matched and so
  removed, which makes the replacement a filter on bytes.\<close>

definition kept :: "char \<Rightarrow> bool" where
  "kept c = (c \<in> set ''abcdefghijklmnopqrstuvwxyz0123456789-'' \<or> is_space c)"

text \<open>Replacing every match of \<^verbatim>\<open>\s+\<close> (a maximal run of white space) with one
  underscore.\<close>

function collapse_spaces :: "string \<Rightarrow> string" where
  "collapse_spaces [] = []"
| "collapse_spaces (c # cs) =
     (if is_space c then CHR ''_'' # collapse_spaces (dropWhile is_space cs)
      else c # collapse_spaces cs)"
  by pat_completeness auto
termination
  by (relation "measure length") (auto simp: le_imp_less_Suc length_dropWhile_le)

text \<open>\<^verbatim>\<open>strings.Trim(s, cutset)\<close>.\<close>

definition Trim :: "string \<Rightarrow> string \<Rightarrow> string" where
  "Trim s cutset =
     rev (dropWhile (\<lambda>c. c \<in> set cutset) (rev (dropWhile (\<lambda>c. c \<in> set cutset) s)))"

text \<open>The characters of a cleaned prompt other than the separator.\<close>

definition stem_chars :: "char set" where
  "stem_chars = set ''abcdefghijklmnopqrstuvwxyz0123456789-''"

definition cleanPrompt :: "(string \<Rightarrow> string) \<Rightarrow> string \<Rightarrow> string" where
  "cleanPrompt unicode prompt =
     Trim (collapse_spaces (filter kept (ToLower unicode prompt))) ''_''"

definition GenerateFilename :: "(string \<Rightarrow> string) \<Rightarrow> string \<Rightarrow> string \<Rightarrow> int \<Rightarrow> string" where
  "GenerateFilename unicode prompt pfx count =
     (let cleaned = cleanPrompt unicode prompt;
          maxLen = 50;
          cleaned = (if length cleaned > maxLen then take maxLen cleaned else cleaned);
          filename = (if pfx \<noteq> [] then pfx @ ''_'' @ cleaned else cleaned);
          filename = (if count > 0 then filename @ ''_'' @ fmt_d count else filename)
      in filename @ ''.png'')"

subsection \<open>Collision avoidance\<close>

text \<open>\<^verbatim>\<open>filepath.Ext\<close>: the suffix from the last dot of the last path element, found by
  scanning backwards to the first dot or separator (the slash of a Unix path).\<close>

fun ext_scan :: "string \<Rightarrow> string \<Rightarrow> string" where
  "ext_scan acc [] = []"
| "ext_scan acc (c # cs) =
     (if c = CHR ''/'' then []
      else if c = CHR ''.'' then c # acc
      else ext_scan (c # acc) cs)"

definition Ext :: "string \<Rightarrow> string" where
  "Ext path = ext_scan [] (rev path)"

text \<open>\<^verbatim>\<open>strings.TrimSuffix\<close>.\<close>

definition TrimSuffix :: "string \<Rightarrow> string \<Rightarrow> string" where
  "TrimSuffix s suff = (if suffix suff s then take (length s - length suff) s else s)"

text \<open>The candidate \<^verbatim>\<open>fmt.Sprintf("%s_%d%s", base, counter, ext)\<close>.\<close>

definition newPath :: "string \<Rightarrow> string \<Rightarrow> int \<Rightarrow> string" where
  "newPath base ext counter = base @ ''_'' @ fmt_d counter @ ext"

text \<open>
  \<^verbatim>\<open>os.Stat\<close> is read for its error only: none, a not-exist error (the one that
  \<^verbatim>\<open>os.IsNotExist\<close> recognises), or another error, such as the one for a path below a
  regular file or in a directory that may not be searched.
\<close>

datatype stat_result = StatOK | StatNotExist | StatOtherError

text \<open>\<^verbatim>\<open>counter++\<close> on Go's \<^verbatim>\<open>int\<close>, which has 32 or 64 bits: the successor, and from
  the largest value the smallest.\<close>

definition next_int :: "nat \<Rightarrow> int \<Rightarrow> int" where
  "next_int bits i = (if i = 2 ^ (bits - 1) - 1 then - (2 ^ (bits - 1)) else i + 1)"

text \<open>
  The \<^verbatim>\<open>for\<close> loop has no bound, so it is a partial function: \<^const>\<open>None\<close> is the loop
  that never returns. A candidate is taken when \<^verbatim>\<open>os.Stat\<close> answers with a not-exist
  error, and passed over on every other answer.
\<close>

partial_function (option) unique_loop ::
  "nat \<Rightarrow> (string \<Rightarrow> stat_result) \<Rightarrow> string \<Rightarrow> string \<Rightarrow> int \<Rightarrow> string option" where
  "unique_loop bits stat base ext counter =
     (if stat (newPath base ext counter) = StatNotExist then Some (newPath base ext counter)
      else unique_loop bits stat base ext (next_int bits counter))"

definition EnsureUniqueFilename :: "nat \<Rightarrow> (string \<Rightarrow> stat_result) \<Rightarrow> string \<Rightarrow> string option" where
  "EnsureUniqueFilename bits stat path =
     (if stat path = StatNotExist then Some path
      else unique_loop bits stat (TrimSuffix path (Ext path)) (Ext path) 1)"

text \<open>Writing \<open>n\<close> times in a row under the same name: each round asks for a free
  path and then creates the file there, after which \<^verbatim>\<open>os.Stat\<close> succeeds on it.\<close>

fun write_times :: "nat \<Rightarrow> (string \<Rightarrow> stat_result) \<Rightarrow> string \<Rightarrow> nat \<Rightarrow> string list option" where
  "write_times bits stat path 0 = Some []"
| "write_times bits stat path (Suc n) =
     (case EnsureUniqueFilename bits stat path of
        None \<Rightarrow> None
      | Some p \<Rightarrow> map_option ((#) p) (write_times bits (stat(p := StatOK)) path n))"

subsection \<open>Writing the image\<close>

text \<open>
  The library and system calls of the file handler and of the commands are parameters,
  collected in one record; \<open>'d\<close> is the state of the disk, of any type, and the two
  calls that can change it return the disk they leave:
  \<^item> \<open>DecodeString\<close>, \<open>EncodeToString\<close>: those of \<^verbatim>\<open>base64.StdEncoding\<close>;
  \<^item> \<open>Dir\<close>, \<open>Base\<close>, \<open>Join\<close>: those of \<^verbatim>\<open>path/filepath\<close>;
  \<^item> \<open>MkdirAll\<close>, \<open>WriteFile\<close>: those of \<^verbatim>\<open>os\<close>, with their fixed permission
    arguments;
  \<^item> \<open>Stat\<close>: \<^verbatim>\<open>os.Stat\<close>, read for its error as above;
  \<^item> \<open>ReadFile\<close>: \<^verbatim>\<open>os.ReadFile\<close>.
\<close>

record 'd host =
  DecodeString :: "string \<Rightarrow> error + string"
  EncodeToString :: "string \<Rightarrow> string"
  Dir :: "string \<Rightarrow> string"
  Base :: "string \<Rightarrow> string"
  Join :: "string \<Rightarrow> string \<Rightarrow> string"
  MkdirAll :: "string \<Rightarrow> 'd \<Rightarrow> error option \<times> 'd"
  WriteFile :: "string \<Rightarrow> string \<Rightarrow> 'd \<Rightarrow> error option \<times> 'd"
  Stat :: "string \<Rightarrow> stat_result"
  ReadFile :: "string \<Rightarrow> error + string"

definition write_image :: "'d host \<Rightarrow> string \<Rightarrow> string \<Rightarrow> 'd \<Rightarrow> error option \<times> 'd" where
  "write_image ops outputPath decoded disk =
     (case WriteFile ops outputPath decoded disk of
        (Some err, disk') \<Rightarrow> (Some (''failed to write image: '' @ err), disk')
      | (None, disk') \<Rightarrow> (None, disk'))"

definition SaveImage :: "'d host \<Rightarrow> string \<Rightarrow> string \<Rightarrow> 'd \<Rightarrow> error option \<times> 'd" where
  "SaveImage ops imageData outputPath disk =
     (case DecodeString ops imageData of
        Inl err \<Rightarrow> (Some (''failed to decode image data: '' @ err), disk)
      | Inr decoded \<Rightarrow>
          (let dir = Dir ops outputPath
           in if dir \<noteq> [] \<and> dir \<noteq> ''.''
              then (case MkdirAll ops dir disk of
                      (Some err, disk') \<Rightarrow> (Some (''failed to create directory: '' @ err), disk')
                    | (None, disk') \<Rightarrow> write_image ops outputPath decoded disk')
              else write_image ops outputPath decoded disk))"


definition LoadImageAsBase64 :: "'d host \<Rightarrow> string \<Rightarrow> error + string" where
  "LoadImageAsBase64 h path =
     (case ReadFile h path of
        Inl err \<Rightarrow> Inl (''failed to read image: '' @ err)
      | Inr bytes \<Rightarrow> Inr (EncodeToString h bytes))"

section \<open>The commands (package cmd)\<close>

text \<open>
  A line printed on standard output is kept as its text without the line breaks;
  \<open>Warning\<close> is a line that starts with the warning sign.
\<close>

datatype printed = Info string | Warning string

subsection \<open>generate\<close>

text \<open>
  The type \<^verbatim>\<open>ImageGenConfig\<close> and the function \<^verbatim>\<open>FindConfig\<close> belong to a file of
  package gemini that is not among the sources. A loaded configuration is represented by
  what its three methods return, and \<^verbatim>\<open>FindConfig\<close> is a parameter.
\<close>

record ImageGenConfig =
  GetAspectRatio :: string
  GetResolution :: string
  ApplyToPrompt :: "string \<Rightarrow> string"

record generate_flags =
  generateCount :: int
  generateOutput :: string
  generateStyle :: string
  generatePreview :: bool
  generateAspectRatio :: string
  generateResolution :: string
  generateFrugal :: bool
  generateSlide :: bool
  generateConfig :: string
  generateForce :: bool
  generateStorePrompt :: bool

text \<open>What \<^verbatim>\<open>runGenerate\<close> has fixed when it enters its loop.\<close>

record generate_plan =
  plan_client :: Client
  plan_fullPrompt :: string
  plan_resolution :: string
  plan_aspectRatio :: string

text \<open>The aspect ratio and the resolution after the defaults of \<^verbatim>\<open>--slide\<close> and then
  those of the configuration have filled the flags left empty.\<close>

definition generate_defaults :: "generate_flags \<Rightarrow> ImageGenConfig option \<Rightarrow> string \<times> string" where
  "generate_defaults flags config =
     (let aspectRatio = (if generateSlide flags \<and> generateAspectRatio flags = []
                         then ''16:9'' else generateAspectRatio flags);
          resolution = (if generateSlide flags \<and> generateResolution flags = []
                        then ''4K'' else generateResolution flags)
      in case config of
           None \<Rightarrow> (aspectRatio, resolution)
         | Some cfg \<Rightarrow>
             (if aspectRatio = [] \<and> GetAspectRatio cfg \<noteq> [] then GetAspectRatio cfg
              else aspectRatio,
              if resolution = [] \<and> GetResolution cfg \<noteq> [] then GetResolution cfg
              else resolution))"

text \<open>The validation of the aspect ratio and of the frugal mode.\<close>

definition generate_validate :: "generate_flags \<Rightarrow> string \<Rightarrow> string \<Rightarrow> error option" where
  "generate_validate flags aspectRatio resolution =
     (case (if aspectRatio \<noteq> [] then ValidateAspectRatio aspectRatio else None) of
        Some err \<Rightarrow> Some err
      | None \<Rightarrow>
          if generateFrugal flags \<and> generateSlide flags then
            Some (''--frugal mode is incompatible with --slide (which requires 4K resolution). ''
                  @ ''Gemini 2.5 Flash only supports 1K (1024px) resolution'')
          else if generateFrugal flags \<and> resolution \<noteq> [] \<and> resolution \<noteq> ''1K'' then
            Some (''--frugal mode only supports 1K resolution, but '' @ resolution
                  @ '' was requested. Gemini 2.5 Flash only supports 1K (1024px) resolution. ''
                  @ ''Remove --frugal to use higher resolutions'')
          else None)"

text \<open>The prompt with the style and the theme of the configuration.\<close>

definition generate_fullPrompt :: "generate_flags \<Rightarrow> ImageGenConfig option \<Rightarrow> string \<Rightarrow> string" where
  "generate_fullPrompt flags config prompt =
     (let fullPrompt = (if generateStyle flags \<noteq> []
                        then prompt @ '', style: '' @ generateStyle flags else prompt)
      in case config of Some cfg \<Rightarrow> ApplyToPrompt cfg fullPrompt | None \<Rightarrow> fullPrompt)"

text \<open>\<^verbatim>\<open>runGenerate\<close> up to the creation of the client; every \<^verbatim>\<open>return\<close> of an
  error is in this part.\<close>

definition runGenerate_prepare ::
  "(string \<Rightarrow> error + ImageGenConfig option) \<Rightarrow> (string \<Rightarrow> string) \<Rightarrow> generate_flags \<Rightarrow> string
     \<Rightarrow> error + generate_plan" where
  "runGenerate_prepare findConfig getenv flags prompt =
     (case (if generateSlide flags \<or> generateConfig flags \<noteq> []
            then findConfig (generateConfig flags) else Inr None) of
        Inl err \<Rightarrow> Inl (''failed to load config: '' @ err)
      | Inr config \<Rightarrow>
          (case generate_validate flags (fst (generate_defaults flags config))
                  (snd (generate_defaults flags config)) of
             Some err \<Rightarrow> Inl err
           | None \<Rightarrow>
               (case (if generateFrugal flags then NewFrugalClient getenv
                      else NewClient getenv) of
                  Inl err \<Rightarrow> Inl (''failed to create Gemini client: '' @ err)
                | Inr client \<Rightarrow>
                    Inr \<lparr>plan_client = client,
                         plan_fullPrompt = generate_fullPrompt flags config prompt,
                         plan_resolution = snd (generate_defaults flags config),
                         plan_aspectRatio = fst (generate_defaults flags config)\<rparr>)))"

text \<open>
  \<^verbatim>\<open>runGenerate\<close>: the error it returns and the requests it puts on the wire. Each of
  the \<^verbatim>\<open>generateCount\<close> rounds of the loop makes the same call; what a round does with
  the image (naming the file and saving it) changes neither, and is modelled by the file
  handler above.
\<close>

definition runGenerate ::
  "(string \<Rightarrow> error + ImageGenConfig option) \<Rightarrow> runtime \<Rightarrow> generate_flags \<Rightarrow> string
     \<Rightarrow> error option \<times> http_request list" where
  "runGenerate findConfig rt flags prompt =
     (case runGenerate_prepare findConfig (Getenv rt) flags prompt of
        Inl err \<Rightarrow> (Some err, [])
      | Inr plan \<Rightarrow>
          (None, concat (replicate (nat (generateCount flags))
                   (snd (GenerateContentWithResolution rt (plan_client plan) (plan_fullPrompt plan)
                           (plan_resolution plan) (plan_aspectRatio plan))))))"

subsection \<open>edit\<close>

record edit_flags =
  editOutput :: string
  editInputs :: "string list"
  editAspectRatio :: string
  editResolution :: string
  editFrugal :: bool
  editForce :: bool
  editStorePrompt :: bool

text \<open>The loop that checks that every additional input exists.\<close>

fun check_inputs :: "'d host \<Rightarrow> string list \<Rightarrow> error option" where
  "check_inputs h [] = None"
| "check_inputs h (inputPath # rest) =
     (if Stat h inputPath = StatNotExist then Some (''input image not found: '' @ inputPath)
      else check_inputs h rest)"

text \<open>The loop that loads the additional inputs, from index \<open>i\<close> on.\<close>

fun load_inputs :: "'d host \<Rightarrow> int \<Rightarrow> string list \<Rightarrow> printed list \<times> (error + string list)" where
  "load_inputs h i [] = ([], Inr [])"
| "load_inputs h i (inputPath # rest) =
     (let line = Info (''Loading input '' @ fmt_d (i + 1) @ '': '' @ Base h inputPath)
      in case LoadImageAsBase64 h inputPath of
           Inl err \<Rightarrow> ([line], Inl (''failed to load input image '' @ inputPath @ '': '' @ err))
         | Inr inputBase64 \<Rightarrow>
             (case load_inputs h (i + 1) rest of
                (out, Inl err) \<Rightarrow> (line # out, Inl err)
              | (out, Inr others) \<Rightarrow> (line # out, Inr (inputBase64 # others))))"

text \<open>The lines printed between the creation of the client and the call.\<close>

definition edit_info :: "edit_flags \<Rightarrow> int \<Rightarrow> string \<Rightarrow> printed list" where
  "edit_info flags totalImages instruction =
     [Info (''Editing with '' @ fmt_d totalImages @ '' image(s)''),
      Info (''Instruction: '' @ instruction)]
     @ (if editAspectRatio flags \<noteq> [] then [Info (''Aspect Ratio: '' @ editAspectRatio flags)] else [])
     @ [Info (''Resolution: '' @ (if editResolution flags = []
                                  then (if editFrugal flags then ''1K'' else ''4K'')
                                  else editResolution flags)),
        (if editFrugal flags then Info (''Model: '' @ ModelNameFrugal @ '' (frugal)'')
         else Info (''Model: '' @ ModelName)),
        Info ''Generating edited image...'']"

text \<open>The error for more than fourteen images, and the default output path next to
  the base image.\<close>

definition too_many_images :: "int \<Rightarrow> error" where
  "too_many_images totalImages =
     ''too many input images ('' @ fmt_d totalImages @ ''). Maximum is 14 (base + additional)''"

definition edit_outputPath :: "'d host \<Rightarrow> edit_flags \<Rightarrow> string \<Rightarrow> string" where
  "edit_outputPath h flags baseImagePath =
     (if editOutput flags = []
      then Join h (Dir h baseImagePath)
             (TrimSuffix (Base h baseImagePath) (Ext baseImagePath) @ ''-edited''
              @ Ext baseImagePath)
      else editOutput flags)"

text \<open>
  \<^verbatim>\<open>runEdit\<close> is followed from its start to the return of the client call, in the
  three blocks of the source. Each block yields what it printed and its outcome.

  First the checks: that the images exist, their number, the output path, the aspect
  ratio and the frugal mode. The outcome is the error returned, if any.
\<close>

definition runEdit_validate ::
  "'d host \<Rightarrow> edit_flags \<Rightarrow> string \<Rightarrow> printed list \<times> error option" where
  "runEdit_validate h flags baseImagePath =
     (if Stat h baseImagePath = StatNotExist then
        ([], Some (''base image not found: '' @ baseImagePath))
      else case check_inputs h (editInputs flags) of
        Some err \<Rightarrow> ([], Some err)
      | None \<Rightarrow>
      (let totalImages = 1 + int (length (editInputs flags)) in
       if totalImages > 14 then
         ([], Some (too_many_images totalImages))
       else
      (let out = (if totalImages > 3
                  then [Warning (''Using '' @ fmt_d totalImages
                                 @ '' images. API works best with 3 or fewer images.'')]
                  else []);
           outputPath = edit_outputPath h flags baseImagePath
       in
       if \<not> editForce flags \<and> Stat h outputPath = StatOK then
         (out, Some (''output file already exists: '' @ outputPath
                     @ '' (use --force to overwrite)''))
       else case (if editAspectRatio flags \<noteq> [] then ValidateAspectRatio (editAspectRatio flags)
                  else None) of
         Some err \<Rightarrow> (out, Some err)
       | None \<Rightarrow>
       if editFrugal flags \<and> editResolution flags \<noteq> [] \<and> editResolution flags \<noteq> ''1K'' then
         (out, Some (''--frugal mode only supports 1K resolution, but '' @ editResolution flags
                     @ '' was requested. Gemini 2.5 Flash only supports 1K (1024px) resolution. ''
                     @ ''Remove --frugal to use higher resolutions''))
       else
         (out @ (if editFrugal flags \<and> totalImages > 1
                 then [Warning (''Warning: Multi-image composition with --frugal mode may have ''
                         @ ''limitations. Gemini 2.5 Flash multi-image capabilities are not well ''
                         @ ''documented. For best results with '' @ fmt_d totalImages
                         @ '' images, consider using Gemini 3 Pro (remove --frugal flag).'')]
                 else []),
          None))))"

text \<open>Then the loading of the base image and of the additional inputs.\<close>

definition runEdit_load ::
  "'d host \<Rightarrow> edit_flags \<Rightarrow> string \<Rightarrow> printed list \<times> (error + string list)" where
  "runEdit_load h flags baseImagePath =
     (let line = Info (''Loading base image: '' @ Base h baseImagePath)
      in case LoadImageAsBase64 h baseImagePath of
           Inl err \<Rightarrow> ([line], Inl (''failed to load base image: '' @ err))
         | Inr baseImageBase64 \<Rightarrow>
             (case load_inputs h 0 (editInputs flags) of
                (lines, Inl err) \<Rightarrow> (line # lines, Inl err)
              | (lines, Inr others) \<Rightarrow> (line # lines, Inr (baseImageBase64 # others))))"

text \<open>Last the creation of the client and the call; the third component is the list
  of requests put on the wire.\<close>

definition runEdit_dispatch ::
  "runtime \<Rightarrow> edit_flags \<Rightarrow> string \<Rightarrow> string list
     \<Rightarrow> printed list \<times> (error + string) \<times> http_request list" where
  "runEdit_dispatch rt flags instruction allImagesBase64 =
     (case (if editFrugal flags then NewFrugalClient (Getenv rt) else NewClient (Getenv rt)) of
        Inl err \<Rightarrow> ([], Inl (''failed to create Gemini client: '' @ err), [])
      | Inr client \<Rightarrow>
          (let call = (if editResolution flags \<noteq> [] \<or> editAspectRatio flags \<noteq> []
                       then GenerateContentWithFullOptions rt client instruction allImagesBase64
                              (editResolution flags) (editAspectRatio flags)
                       else GenerateContentWithImages rt client instruction allImagesBase64 [])
           in (edit_info flags (1 + int (length (editInputs flags))) instruction,
               (case fst call of
                  Inl err \<Rightarrow> Inl (''failed to edit image: '' @ err)
                | Inr editedImageData \<Rightarrow> Inr editedImageData),
               snd call)))"

text \<open>The three blocks in sequence: what \<^verbatim>\<open>runEdit\<close> printed, the error it returns or
  the image data it hands to \<^verbatim>\<open>SaveImage\<close>, and the requests it put on the wire.\<close>

definition runEdit ::
  "runtime \<Rightarrow> 'd host \<Rightarrow> edit_flags \<Rightarrow> string \<Rightarrow> string
     \<Rightarrow> printed list \<times> (error + string) \<times> http_request list" where
  "runEdit rt h flags baseImagePath instruction =
     (case runEdit_validate h flags baseImagePath of
        (out, Some err) \<Rightarrow> (out, Inl err, [])
      | (out, None) \<Rightarrow>
          (case runEdit_load h flags baseImagePath of
             (lines, Inl err) \<Rightarrow> (out @ lines, Inl err, [])
           | (lines, Inr allImagesBase64) \<Rightarrow>
               (case runEdit_dispatch rt flags instruction allImagesBase64 of
                  (info, result, sent) \<Rightarrow> (out @ lines @ info, result, sent))))"

section \<open>Fixtures\<close>

text \<open>Concrete hosts and inputs on which the theorems below are exercised.\<close>

definition demo_getenv :: "string \<Rightarrow> string" where
  "demo_getenv name = (if name = ''GEMINI_API_KEY'' then ''secret'' else [])"

definition demo_runtime :: runtime where
  "demo_runtime =
     \<lparr>Getenv = demo_getenv,
      NewRequest = (\<lambda>_. None),
      Do = (\<lambda>_. Responded 403 ''API key not valid for this quota project''),
      Unmarshal = (\<lambda>_. Inl ''invalid character''),
      MapToLower = (\<lambda>s. s)\<rparr>"

definition standard_client :: Client where
  "standard_client = \<lparr>apiKey = ''secret'', model = ModelName, baseURL = BaseURL\<rparr>"

definition frugal_client :: Client where
  "frugal_client = \<lparr>apiKey = ''secret'', model = ModelNameFrugal, baseURL = BaseURL\<rparr>"


definition bare_runtime :: runtime where
  "bare_runtime = demo_runtime\<lparr>Getenv := (\<lambda>_. [])\<rparr>"

text \<open>A runtime whose remote answers with an empty JSON object.\<close>

definition empty_reply_runtime :: runtime where
  "empty_reply_runtime =
     demo_runtime\<lparr>Do := (\<lambda>_. Responded 200 ''{}''),
                  Unmarshal := (\<lambda>_. Inr \<lparr>Candidates = [], Error = None\<rparr>)\<rparr>"

text \<open>A host whose disk is the list of the changes made to it, with two image files.\<close>

definition demo_host :: "string list host" where
  "demo_host =
     \<lparr>DecodeString = (\<lambda>s. if s = ''QUJD'' then Inr ''ABC''
                           else Inl ''illegal base64 data at input byte 0''),
      EncodeToString = (\<lambda>_. ''QUJD''),
      Dir = (\<lambda>p. if p = ''out/fox.png'' then ''out'' else ''.''),
      Base = (\<lambda>p. p),
      Join = (\<lambda>d f. f),
      MkdirAll = (\<lambda>d disk. (None, disk @ [''mkdir '' @ d])),
      WriteFile = (\<lambda>p bytes disk. (None, disk @ [''write '' @ p])),
      Stat = (\<lambda>p. if p = ''photo.png'' \<or> p = ''extra.png'' then StatOK else StatNotExist),
      ReadFile = (\<lambda>p. if p = ''photo.png'' \<or> p = ''extra.png'' then Inr ''ABC''
                       else Inl ''no such file or directory'')\<rparr>"

definition demo_edit_flags :: "string list \<Rightarrow> edit_flags" where
  "demo_edit_flags inputs =
     \<lparr>editOutput = [], editInputs = inputs, editAspectRatio = [], editResolution = [],
      editFrugal = False, editForce = False, editStorePrompt = False\<rparr>"

definition demo_generate_flags :: generate_flags where
  "demo_generate_flags =
     \<lparr>generateCount = 1, generateOutput = ''.'', generateStyle = [], generatePreview = False,
      generateAspectRatio = [], generateResolution = [], generateFrugal = False,
      generateSlide = False, generateConfig = [], generateForce = False,
      generateStorePrompt = False\<rparr>"


definition no_config :: "string \<Rightarrow> error + ImageGenConfig option" where
  "no_config path = Inr None"

text \<open>\<^verbatim>\<open>os.Stat\<close> in a directory that holds the regular file \<^verbatim>\<open>file.txt\<close> and
  nothing else: a path below the file names nothing, and the call fails there with the
  not-a-directory error, which is not a not-exist error.\<close>

definition below_a_file :: "string \<Rightarrow> stat_result" where
  "below_a_file p =
     (if p = ''file.txt'' then StatOK
      else if prefix ''file.txt/'' p then StatOtherError
      else StatNotExist)"

text \<open>A response whose first part is a long text without white space and whose second
  part carries inline data.\<close>

definition text_then_inline :: GenerateResponse where
  "text_then_inline =
     \<lparr>Candidates =
        [\<lparr>Content = \<lparr>Role = ''model'',
                      Parts = [\<lparr>Text = replicate 1001 (CHR ''A''), InlineData = None\<rparr>,
                               \<lparr>Text = [], InlineData = Some \<lparr>MimeType = ''image/png'',
                                                               Data = ''QUJD''\<rparr>\<rparr>]\<rparr>\<rparr>],
      Error = None\<rparr>"

section \<open>The statements of the specification, in its own words\<close>

text \<open>The two rules of image extraction: a part carrying non-empty inline data, and a
  part whose text is longer than 1000 bytes and has neither a space nor a newline.\<close>

definition has_inline_data :: "Part \<Rightarrow> bool" where
  "has_inline_data p = (case InlineData p of Some d \<Rightarrow> Data d \<noteq> [] | None \<Rightarrow> False)"

definition inline_data :: "Part \<Rightarrow> string" where
  "inline_data p = (case InlineData p of Some d \<Rightarrow> Data d | None \<Rightarrow> [])"

definition base64_like_text :: "Part \<Rightarrow> bool" where
  "base64_like_text p =
     (length (Text p) > 1000 \<and> \<not> Contains (Text p) '' '' \<and> \<not> Contains (Text p) [CHR 0x0A])"

text \<open>Extraction as the specification describes it: the first part with inline data
  wins over every text part; text parts are looked at only when no part carries inline
  data, and the one returned is the first that is longer than 1000 and has no white
  space.\<close>

definition long_text_without_space :: "Part \<Rightarrow> bool" where
  "long_text_without_space p = (length (Text p) > 1000 \<and> \<not> list_ex is_space (Text p))"

definition extract_inline_first :: "GenerateResponse \<Rightarrow> string" where
  "extract_inline_first result =
     (case Candidates result of
        [] \<Rightarrow> []
      | candidate # _ \<Rightarrow>
          (case find has_inline_data (Parts (Content candidate)) of
             Some p \<Rightarrow> inline_data p
           | None \<Rightarrow>
               (case find long_text_without_space (Parts (Content candidate)) of
                  Some p \<Rightarrow> Text p
                | None \<Rightarrow> [])))"

section \<open>Properties of the request client\<close>

subsection \<open>Substrings\<close>

lemma Contains_sublist: "Contains s sub = sublist sub s"
  by (induction s) (auto simp: sublist_Cons_right)

lemma Contains_mid: "Contains (a @ s @ b) s"
  by (auto simp: Contains_sublist sublist_def)

lemma Contains_append_left: "Contains b r \<Longrightarrow> Contains (a @ b) r"
  by (simp add: Contains_sublist sublist_append)

lemma Contains_append_right: "Contains a r \<Longrightarrow> Contains (a @ b) r"
  by (simp add: Contains_sublist sublist_append)

lemma Contains_join_with:
  "r \<in> set xs \<Longrightarrow> Contains (join_with xs sep) r"
proof (induction xs sep rule: join_with.induct)
  case (1 sep)
  then show ?case by simp
next
  case (2 x sep)
  then show ?case by (simp add: Contains_sublist)
next
  case (3 x y ys sep)
  have unfold: "join_with (x # y # ys) sep = x @ sep @ join_with (y # ys) sep"
    by simp
  show ?case
  proof (cases "r = x")
    case True
    then show ?thesis
      unfolding unfold by (simp add: Contains_append_right Contains_sublist)
  next
    case False
    with 3 have "Contains (join_with (y # ys) sep) r" by simp
    then show ?thesis
      unfolding unfold by (intro Contains_append_left)
  qed
qed

lemma Contains_fmt_v: "r \<in> set xs \<Longrightarrow> Contains (fmt_v xs) r"
  unfolding fmt_v_def
  by (intro Contains_append_left Contains_append_right Contains_join_with)

lemma Contains_single: "Contains s [c] \<longleftrightarrow> c \<in> set s"
  by (induction s) auto

subsection \<open>The image size in the payload\<close>

lemma ModelName_not_frugal: "ModelName \<noteq> ModelNameFrugal"
  by (simp add: ModelName_def ModelNameFrugal_def)

lemma sent_built:
  "req \<in> set (snd (GenerateContentWithFullOptions rt c prompt images resolution aspectRatio)) \<Longrightarrow>
   build_request rt c prompt images resolution aspectRatio = Inr req"
  by (auto simp: GenerateContentWithFullOptions_def split: sum.splits)

lemma built_body:
  "build_request rt c prompt images resolution aspectRatio = Inr req \<Longrightarrow>
   Body req = marshal_GenerateRequest (reqBody c prompt images resolution aspectRatio)"
  by (auto simp: build_request_def Let_def split: option.splits)

lemma wire_string_valid: "valid_utf8 s \<Longrightarrow> wire_string s = s"
  by (induction s rule: wire_string.induct) auto

lemma valid_4K: "valid_utf8 ''4K''"
  by (simp add: rune_size.simps)

lemma standard_imageSize:
  "model c \<noteq> ModelNameFrugal \<Longrightarrow>
   at_path [''generationConfig'', ''imageConfig'', ''imageSize'']
     (marshal_GenerateRequest (reqBody c prompt images resolution aspectRatio))
   = Some (JString (wire_string (if resolution = [] then ''4K'' else resolution)))"
  by (simp add: marshal_GenerateRequest_def reqBody_def Let_def omitnil_def omitempty_def
      marshal_GenerationConfig_def marshal_ImageConfig_def marshal_string_def)

lemma standard_imageSize_valid:
  assumes "model c \<noteq> ModelNameFrugal" "valid_utf8 resolution"
  shows "at_path [''generationConfig'', ''imageConfig'', ''imageSize'']
           (marshal_GenerateRequest (reqBody c prompt images resolution aspectRatio))
         = Some (JString (if resolution = [] then ''4K'' else resolution))"
proof -
  have "valid_utf8 (if resolution = [] then ''4K'' else resolution)"
    using assms(2) valid_4K by presburger
  then show ?thesis
    using standard_imageSize [OF assms(1)] by (simp only: wire_string_valid)
qed

lemma part_no_imageSize: "\<not> has_field ''imageSize'' (marshal_Part p)"
  by (simp add: marshal_Part_def omitempty_def omitnil_def marshal_InlineData_def
      marshal_string_def split: option.splits)

lemma frugal_no_imageSize:
  "model c = ModelNameFrugal \<Longrightarrow>
   \<not> has_field ''imageSize''
       (marshal_GenerateRequest (reqBody c prompt images resolution aspectRatio))"
  by (simp add: marshal_GenerateRequest_def reqBody_def Let_def omitnil_def omitempty_def
      marshal_GenerationConfig_def marshal_ImageConfig_def marshal_Content_def
      marshal_string_def part_no_imageSize list_ex_iff)

lemma demo_sent:
  "snd (GenerateContentWithFullOptions demo_runtime c p imgs res []) =
   [\<lparr>URL = request_url c, Body = marshal_GenerateRequest (reqBody c p imgs res [])\<rparr>]"
  by (simp add: GenerateContentWithFullOptions_def build_request_def ValidateAspectRatio_def
      demo_runtime_def)

text \<open>
  Claim C1. Every request that \<^verbatim>\<open>GenerateContentWithFullOptions\<close> puts on the wire
  carries, when the client's model is the standard one (and for any model but the frugal
  one), the field \<^verbatim>\<open>generationConfig.imageConfig.imageSize\<close>; for a resolution that is
  valid UTF-8 its value is the caller's resolution when that is set and \<^verbatim>\<open>4K\<close> when it
  is empty (in general it is that string as \<^verbatim>\<open>json.Marshal\<close> writes it). When the
  client's model is the frugal one, no field named \<^verbatim>\<open>imageSize\<close> occurs anywhere in
  the payload, whatever the resolution argument.
\<close>

theorem imageSize_by_tier:
  assumes "req \<in> set (snd (GenerateContentWithFullOptions rt c prompt imagesBase64 resolution aspectRatio))"
  shows "(model c = ModelName \<and> valid_utf8 resolution \<longrightarrow>
            at_path [''generationConfig'', ''imageConfig'', ''imageSize''] (Body req)
            = Some (JString (if resolution = [] then ''4K'' else resolution)))
       \<and> (model c \<noteq> ModelNameFrugal \<and> valid_utf8 resolution \<longrightarrow>
            at_path [''generationConfig'', ''imageConfig'', ''imageSize''] (Body req)
            = Some (JString (if resolution = [] then ''4K'' else resolution)))
       \<and> (model c \<noteq> ModelNameFrugal \<longrightarrow>
            at_path [''generationConfig'', ''imageConfig'', ''imageSize''] (Body req)
            = Some (JString (wire_string (if resolution = [] then ''4K'' else resolution))))
       \<and> (model c = ModelNameFrugal \<longrightarrow> \<not> has_field ''imageSize'' (Body req))"
proof -
  have "Body req = marshal_GenerateRequest (reqBody c prompt imagesBase64 resolution aspectRatio)"
    using assms by (intro built_body sent_built)
  then show ?thesis
    using standard_imageSize standard_imageSize_valid frugal_no_imageSize ModelName_not_frugal
    by metis
qed

text \<open>The theorem at work: the standard client with the resolution unset, set to
  \<^verbatim>\<open>2K\<close> and set to the single byte FF, and the frugal client asked for \<^verbatim>\<open>2K\<close>.\<close>

theorem imageSize_by_tier_witness:
  "at_path [''generationConfig'', ''imageConfig'', ''imageSize'']
     (Body (hd (snd (GenerateContentWithFullOptions demo_runtime standard_client ''watercolor fox'' [] [] []))))
   = Some (JString ''4K'')
   \<and> at_path [''generationConfig'', ''imageConfig'', ''imageSize'']
     (Body (hd (snd (GenerateContentWithFullOptions demo_runtime standard_client ''watercolor fox'' [] ''2K'' []))))
   = Some (JString ''2K'')
   \<and> at_path [''generationConfig'', ''imageConfig'', ''imageSize'']
     (Body (hd (snd (GenerateContentWithFullOptions demo_runtime standard_client ''watercolor fox'' []
                       [CHR 0xFF] []))))
   = Some (JString [CHR 0xEF, CHR 0xBF, CHR 0xBD])
   \<and> \<not> has_field ''imageSize''
     (Body (hd (snd (GenerateContentWithFullOptions demo_runtime frugal_client ''watercolor fox'' [] ''2K'' []))))"
proof -
  have m: "hd (snd (GenerateContentWithFullOptions demo_runtime c p imgs res []))
           \<in> set (snd (GenerateContentWithFullOptions demo_runtime c p imgs res []))" for c p imgs res
    by (simp add: demo_sent)
  have s: "model standard_client = ModelName" "model standard_client \<noteq> ModelNameFrugal"
    by (simp_all add: standard_client_def ModelName_def ModelNameFrugal_def)
  have f: "model frugal_client = ModelNameFrugal"
    by (simp add: frugal_client_def)
  have v: "valid_utf8 []" "valid_utf8 ''2K''"
    by (simp_all add: rune_size.simps)
  have w: "wire_string [CHR 0xFF] = [CHR 0xEF, CHR 0xBF, CHR 0xBD]"
    by (simp add: rune_size.simps)
  show ?thesis
    using imageSize_by_tier [OF m [of standard_client "''watercolor fox''" "[]" "[]"]]
      imageSize_by_tier [OF m [of standard_client "''watercolor fox''" "[]" "''2K''"]]
      imageSize_by_tier [OF m [of standard_client "''watercolor fox''" "[]" "[CHR 0xFF]"]]
      imageSize_by_tier [OF m [of frugal_client "''watercolor fox''" "[]" "''2K''"]] s f v w
    by simp
qed

subsection \<open>Aspect ratios\<close>

lemma fmt_v_supported:
  "fmt_v SupportedAspectRatios = ''[1:1 16:9 9:16 4:3 3:4 3:2 2:3 21:9 5:4 4:5]''"
  by (simp add: fmt_v_def SupportedAspectRatios_def)

lemma validate_supported:
  "s \<in> set SupportedAspectRatios \<Longrightarrow> ValidateAspectRatio s = None"
  by (simp add: ValidateAspectRatio_def list_ex_iff)

lemma validate_unsupported:
  "s \<noteq> [] \<Longrightarrow> s \<notin> set SupportedAspectRatios \<Longrightarrow>
   ValidateAspectRatio s
   = Some (''unsupported aspect ratio: '' @ s @ ''. Supported: '' @ fmt_v SupportedAspectRatios)"
  by (auto simp: ValidateAspectRatio_def list_ex_iff)

lemma unsupported_no_call:
  "ValidateAspectRatio s = Some err \<Longrightarrow>
   GenerateContentWithFullOptions rt c prompt images resolution s = (Inl err, [])"
  by (simp add: GenerateContentWithFullOptions_def build_request_def)

text \<open>
  Claim C4 (amended). \<^verbatim>\<open>ValidateAspectRatio\<close> accepts every string of the fixed
  supported set, and it accepts the empty string, which stands for an unset ratio. For
  every other string it fails, and the message names the input and lists the whole
  supported set; \<^verbatim>\<open>GenerateContentWithFullOptions\<close> then returns that error and puts
  no request on the wire.
\<close>

theorem aspect_ratio_validated_before_dispatch:
  "(s \<in> set SupportedAspectRatios \<longrightarrow> ValidateAspectRatio s = None)
   \<and> ValidateAspectRatio [] = None
   \<and> (s \<noteq> [] \<and> s \<notin> set SupportedAspectRatios \<longrightarrow>
        ValidateAspectRatio s
          = Some (''unsupported aspect ratio: '' @ s
                  @ ''. Supported: [1:1 16:9 9:16 4:3 3:4 3:2 2:3 21:9 5:4 4:5]'')
        \<and> Contains (the (ValidateAspectRatio s)) s
        \<and> (\<forall>r \<in> set SupportedAspectRatios. Contains (the (ValidateAspectRatio s)) r)
        \<and> GenerateContentWithFullOptions rt c prompt imagesBase64 resolution s
          = (Inl (the (ValidateAspectRatio s)), []))"
proof (intro conjI impI)
  show "ValidateAspectRatio [] = None" by (simp add: ValidateAspectRatio_def)
next
  assume "s \<in> set SupportedAspectRatios"
  then show "ValidateAspectRatio s = None" by (rule validate_supported)
next
  assume a: "s \<noteq> [] \<and> s \<notin> set SupportedAspectRatios"
  then have v: "ValidateAspectRatio s
      = Some (''unsupported aspect ratio: '' @ s @ ''. Supported: '' @ fmt_v SupportedAspectRatios)"
    by (simp add: validate_unsupported)
  then show "ValidateAspectRatio s
          = Some (''unsupported aspect ratio: '' @ s
                  @ ''. Supported: [1:1 16:9 9:16 4:3 3:4 3:2 2:3 21:9 5:4 4:5]'')"
    by (simp add: fmt_v_supported)
  show "Contains (the (ValidateAspectRatio s)) s"
    unfolding v option.sel by (rule Contains_mid)
  show "\<forall>r \<in> set SupportedAspectRatios. Contains (the (ValidateAspectRatio s)) r"
    unfolding v option.sel
    by (intro ballI Contains_append_left Contains_fmt_v)
  show "GenerateContentWithFullOptions rt c prompt imagesBase64 resolution s
          = (Inl (the (ValidateAspectRatio s)), [])"
    using v by (simp add: unsupported_no_call)
qed

text \<open>The theorem at a supported ratio and at an unsupported one.\<close>

theorem aspect_ratio_witness:
  "ValidateAspectRatio ''21:9'' = None
   \<and> ValidateAspectRatio ''7:3''
       = Some ''unsupported aspect ratio: 7:3. Supported: [1:1 16:9 9:16 4:3 3:4 3:2 2:3 21:9 5:4 4:5]''
   \<and> GenerateContentWithFullOptions demo_runtime standard_client ''fox'' [] [] ''7:3''
       = (Inl ''unsupported aspect ratio: 7:3. Supported: [1:1 16:9 9:16 4:3 3:4 3:2 2:3 21:9 5:4 4:5]'', [])"
proof -
  have a: "''21:9'' \<in> set SupportedAspectRatios"
    by (simp add: SupportedAspectRatios_def)
  have b: "''7:3'' \<noteq> [] \<and> ''7:3'' \<notin> set SupportedAspectRatios"
    by (simp add: SupportedAspectRatios_def)
  show ?thesis
    using aspect_ratio_validated_before_dispatch [of "''21:9''"] a
      aspect_ratio_validated_before_dispatch [of "''7:3''" demo_runtime standard_client "''fox''" "[]" "[]"] b
    by simp
qed

text \<open>Claim C4 as stated fails at the empty string: it is not in the supported set, and
  yet validation succeeds.\<close>

theorem empty_aspect_ratio_counterexample:
  "[] \<notin> set SupportedAspectRatios \<and> ValidateAspectRatio [] = None"
  by (simp add: SupportedAspectRatios_def ValidateAspectRatio_def)

subsection \<open>Credentials\<close>

lemma first_set_empty: "first_set g ks = [] \<longleftrightarrow> (\<forall>k \<in> set ks. g k = [])"
  by (induction ks) (auto simp: Let_def)

lemma first_set_index:
  "i < length ks \<Longrightarrow> g (ks ! i) \<noteq> [] \<Longrightarrow> (\<forall>j < i. g (ks ! j) = []) \<Longrightarrow>
   first_set g ks = g (ks ! i)"
proof (induction ks arbitrary: i)
  case Nil
  then show ?case by simp
next
  case (Cons k ks)
  show ?case
  proof (cases i)
    case 0
    with Cons.prems show ?thesis by (simp add: Let_def)
  next
    case (Suc n)
    with Cons.prems have head: "g k = []" by auto
    from Suc Cons.prems have "first_set g ks = g (ks ! n)"
      by (intro Cons.IH) auto
    with head Suc show ?thesis by (simp add: Let_def)
  qed
qed

lemma no_key_no_client:
  "\<forall>k \<in> set keys. getenv k = [] \<Longrightarrow>
   NewClientWithModel getenv m
   = Inl (''API key not found. Please set one of: NANOBANANA_GEMINI_API_KEY, ''
          @ ''NANOBANANA_GOOGLE_API_KEY, GEMINI_API_KEY, or GOOGLE_API_KEY'')"
  by (simp add: NewClientWithModel_def getAPIKey_def first_set_empty Let_def)

lemma prepare_client:
  "runGenerate_prepare findConfig getenv flags prompt = Inr plan \<Longrightarrow>
   (if generateFrugal flags then NewFrugalClient getenv else NewClient getenv)
   = Inr (plan_client plan)"
  by (auto simp: runGenerate_prepare_def split: sum.splits option.splits if_splits)

lemma no_key_generate:
  assumes "\<forall>k \<in> set keys. Getenv rt k = []"
  shows "snd (runGenerate findConfig rt flags prompt) = []"
proof (cases "runGenerate_prepare findConfig (Getenv rt) flags prompt")
  case (Inl e)
  then show ?thesis by (simp add: runGenerate_def)
next
  case (Inr plan)
  have "isl (NewFrugalClient (Getenv rt))" "isl (NewClient (Getenv rt))"
    using no_key_no_client [OF assms] by (simp_all add: NewClient_def NewFrugalClient_def)
  with prepare_client [OF Inr] show ?thesis
    by (simp split: if_splits)
qed

lemma no_key_edit:
  assumes "\<forall>k \<in> set keys. Getenv rt k = []"
  shows "snd (snd (runEdit rt h flags baseImagePath instruction)) = []"
proof -
  obtain e where "NewFrugalClient (Getenv rt) = Inl e" "NewClient (Getenv rt) = Inl e"
    using no_key_no_client [OF assms] by (simp add: NewClient_def NewFrugalClient_def)
  then have "snd (snd (runEdit_dispatch rt flags instruction imgs)) = []" for imgs
    by (simp add: runEdit_dispatch_def)
  then show ?thesis
    by (auto simp: runEdit_def split: sum.splits option.splits prod.splits)
       (metis snd_conv)
qed

text \<open>
  Claim C6. The credential of a new client is the value of the first non-empty variable
  in the order \<^verbatim>\<open>NANOBANANA_GEMINI_API_KEY\<close>, \<^verbatim>\<open>NANOBANANA_GOOGLE_API_KEY\<close>,
  \<^verbatim>\<open>GEMINI_API_KEY\<close>, \<^verbatim>\<open>GOOGLE_API_KEY\<close>. When all four are empty or unset the
  construction fails with the missing-key error, and neither the generate nor the edit
  command puts a request on the wire.
\<close>

theorem credential_first_non_empty:
  "keys = [''NANOBANANA_GEMINI_API_KEY'', ''NANOBANANA_GOOGLE_API_KEY'',
           ''GEMINI_API_KEY'', ''GOOGLE_API_KEY'']
   \<and> (\<forall>i < length keys.
         Getenv rt (keys ! i) \<noteq> [] \<and> (\<forall>j < i. Getenv rt (keys ! j) = []) \<longrightarrow>
         NewClientWithModel (Getenv rt) m
         = Inr \<lparr>apiKey = Getenv rt (keys ! i), model = m, baseURL = BaseURL\<rparr>)
   \<and> ((\<forall>k \<in> set keys. Getenv rt k = []) \<longrightarrow>
         NewClientWithModel (Getenv rt) m
         = Inl (''API key not found. Please set one of: NANOBANANA_GEMINI_API_KEY, ''
                @ ''NANOBANANA_GOOGLE_API_KEY, GEMINI_API_KEY, or GOOGLE_API_KEY'')
         \<and> snd (runGenerate findConfig rt gflags prompt) = []
         \<and> snd (snd (runEdit rt h eflags baseImagePath instruction)) = [])"
proof (intro conjI allI impI)
  show "keys = [''NANOBANANA_GEMINI_API_KEY'', ''NANOBANANA_GOOGLE_API_KEY'',
           ''GEMINI_API_KEY'', ''GOOGLE_API_KEY'']"
    by (simp add: keys_def)
next
  fix i
  assume i: "Getenv rt (keys ! i) \<noteq> [] \<and> (\<forall>j < i. Getenv rt (keys ! j) = [])"
    and "i < length keys"
  then have "first_set (Getenv rt) keys = Getenv rt (keys ! i)"
    by (intro first_set_index) auto
  moreover from i have "Getenv rt (keys ! i) \<noteq> []" by simp
  ultimately show "NewClientWithModel (Getenv rt) m
         = Inr \<lparr>apiKey = Getenv rt (keys ! i), model = m, baseURL = BaseURL\<rparr>"
    by (simp add: NewClientWithModel_def getAPIKey_def Let_def)
next
  assume none: "\<forall>k \<in> set keys. Getenv rt k = []"
  show "NewClientWithModel (Getenv rt) m
         = Inl (''API key not found. Please set one of: NANOBANANA_GEMINI_API_KEY, ''
                @ ''NANOBANANA_GOOGLE_API_KEY, GEMINI_API_KEY, or GOOGLE_API_KEY'')"
    using none by (rule no_key_no_client)
  show "snd (runGenerate findConfig rt gflags prompt) = []"
    using none by (rule no_key_generate)
  show "snd (snd (runEdit rt h eflags baseImagePath instruction)) = []"
    using none by (rule no_key_edit)
qed

text \<open>The theorem in an environment that sets the third variable only, and in an empty
  one.\<close>

theorem credential_witness:
  "NewClientWithModel (Getenv demo_runtime) ModelName
     = Inr \<lparr>apiKey = ''secret'', model = ModelName, baseURL = BaseURL\<rparr>
   \<and> NewClientWithModel (Getenv bare_runtime) ModelName
     = Inl ''API key not found. Please set one of: NANOBANANA_GEMINI_API_KEY, NANOBANANA_GOOGLE_API_KEY, GEMINI_API_KEY, or GOOGLE_API_KEY''
   \<and> snd (runGenerate no_config bare_runtime demo_generate_flags ''fox'') = []
   \<and> snd (snd (runEdit bare_runtime demo_host (demo_edit_flags []) ''photo.png'' ''sunset'')) = []"
proof -
  have third: "2 < length keys \<and> Getenv demo_runtime (keys ! 2) \<noteq> []
               \<and> (\<forall>j < 2. Getenv demo_runtime (keys ! j) = [])"
    by (simp add: keys_def demo_runtime_def demo_getenv_def less_Suc_eq numeral_2_eq_2)
  have none: "\<forall>k \<in> set keys. Getenv bare_runtime k = []"
    by (simp add: bare_runtime_def)
  have val: "Getenv demo_runtime (keys ! 2) = ''secret''"
    by (simp add: keys_def demo_runtime_def demo_getenv_def)
  have "\<forall>i < length keys.
         Getenv demo_runtime (keys ! i) \<noteq> [] \<and> (\<forall>j < i. Getenv demo_runtime (keys ! j) = []) \<longrightarrow>
         NewClientWithModel (Getenv demo_runtime) ModelName
         = Inr \<lparr>apiKey = Getenv demo_runtime (keys ! i), model = ModelName, baseURL = BaseURL\<rparr>"
    using credential_first_non_empty
      [of demo_runtime ModelName no_config demo_generate_flags "''fox''" demo_host
          "demo_edit_flags []" "''photo.png''" "''sunset''"]
    by (rule conjunct1 [OF conjunct2])
  with third val have a: "NewClientWithModel (Getenv demo_runtime) ModelName
     = Inr \<lparr>apiKey = ''secret'', model = ModelName, baseURL = BaseURL\<rparr>"
    by metis
  from credential_first_non_empty
    [of bare_runtime ModelName no_config demo_generate_flags "''fox''" demo_host
        "demo_edit_flags []" "''photo.png''" "''sunset''"] none
  show ?thesis using a by simp
qed

subsection \<open>Image extraction\<close>

lemma scan_parts_first:
  "scan_parts ps =
     (case find (\<lambda>p. has_inline_data p \<or> base64_like_text p) ps of
        None \<Rightarrow> []
      | Some p \<Rightarrow> if has_inline_data p then inline_data p else Text p)"
  by (induction ps)
     (auto simp: has_inline_data_def inline_data_def base64_like_text_def split: option.splits)

lemma scan_parts_empty:
  "scan_parts ps = [] \<longleftrightarrow> \<not> list_ex (\<lambda>p. has_inline_data p \<or> base64_like_text p) ps"
  by (induction ps)
     (auto simp: has_inline_data_def inline_data_def base64_like_text_def split: option.splits)

lemma no_image_error:
  "Unmarshal rt raw = Inr result \<Longrightarrow> Error result = None \<Longrightarrow> extractImageData result = [] \<Longrightarrow>
   read_response rt (Responded 200 raw) = Inl ''no image data found in response''"
  by (simp add: read_response_def)

text \<open>
  Claim C3 (amended). \<^verbatim>\<open>extractImageData\<close> scans the parts of the first candidate in
  order and stops at the first part that carries non-empty inline data or whose text is
  longer than 1000 bytes and has neither a space nor a newline; it returns that part's
  inline data if it has some, else its text. When no part qualifies (or there is no
  candidate) the call fails with the error \<^verbatim>\<open>no image data found in response\<close>. A
  response whose only part is a text of 1500 characters without space or newline yields
  that text.
\<close>

theorem extraction_first_qualifying_part:
  "extractImageData result =
     (case Candidates result of
        [] \<Rightarrow> []
      | candidate # _ \<Rightarrow>
          (case find (\<lambda>p. has_inline_data p \<or> base64_like_text p) (Parts (Content candidate)) of
             None \<Rightarrow> []
           | Some p \<Rightarrow> if has_inline_data p then inline_data p else Text p))
   \<and> (Unmarshal rt raw = Inr result \<and> Error result = None
        \<and> (case Candidates result of
              [] \<Rightarrow> True
            | candidate # _ \<Rightarrow>
                \<not> list_ex (\<lambda>p. has_inline_data p \<or> base64_like_text p) (Parts (Content candidate)))
        \<longrightarrow> read_response rt (Responded 200 raw) = Inl ''no image data found in response'')
   \<and> (length t = 1500 \<and> CHR '' '' \<notin> set t \<and> CHR 0x0A \<notin> set t \<longrightarrow>
        extractImageData
          \<lparr>Candidates = [\<lparr>Content = \<lparr>Role = role, Parts = [\<lparr>Text = t, InlineData = None\<rparr>]\<rparr>\<rparr>],
           Error = e\<rparr> = t)"
proof (intro conjI impI)
  show "extractImageData result =
     (case Candidates result of
        [] \<Rightarrow> []
      | candidate # _ \<Rightarrow>
          (case find (\<lambda>p. has_inline_data p \<or> base64_like_text p) (Parts (Content candidate)) of
             None \<Rightarrow> []
           | Some p \<Rightarrow> if has_inline_data p then inline_data p else Text p))"
    by (simp add: extractImageData_def scan_parts_first split: list.splits)
next
  assume a: "Unmarshal rt raw = Inr result \<and> Error result = None
        \<and> (case Candidates result of
              [] \<Rightarrow> True
            | candidate # _ \<Rightarrow>
                \<not> list_ex (\<lambda>p. has_inline_data p \<or> base64_like_text p) (Parts (Content candidate)))"
  then have "extractImageData result = []"
    by (simp add: extractImageData_def scan_parts_empty split: list.splits)
  with a show "read_response rt (Responded 200 raw) = Inl ''no image data found in response''"
    by (simp add: no_image_error)
next
  assume "length t = 1500 \<and> CHR '' '' \<notin> set t \<and> CHR 0x0A \<notin> set t"
  then show "extractImageData
          \<lparr>Candidates = [\<lparr>Content = \<lparr>Role = role, Parts = [\<lparr>Text = t, InlineData = None\<rparr>]\<rparr>\<rparr>],
           Error = e\<rparr> = t"
    by (auto simp: extractImageData_def Contains_single)
qed

text \<open>The theorem on an empty reply and on a text of 1500 letters.\<close>

theorem extraction_witness:
  "read_response empty_reply_runtime (Responded 200 ''{}'')
     = Inl ''no image data found in response''
   \<and> extractImageData
       \<lparr>Candidates = [\<lparr>Content = \<lparr>Role = ''model'',
                                     Parts = [\<lparr>Text = replicate 1500 (CHR ''A''),
                                                InlineData = None\<rparr>]\<rparr>\<rparr>],
        Error = None\<rparr>
     = replicate 1500 (CHR ''A'')"
proof -
  have a: "Unmarshal empty_reply_runtime ''{}'' = Inr \<lparr>Candidates = [], Error = None\<rparr>
           \<and> Error \<lparr>Candidates = [], Error = None\<rparr> = None
           \<and> (case Candidates \<lparr>Candidates = [], Error = None\<rparr> of
                 [] \<Rightarrow> True
               | candidate # _ \<Rightarrow>
                   \<not> list_ex (\<lambda>p. has_inline_data p \<or> base64_like_text p)
                        (Parts (Content candidate)))"
    by (simp add: empty_reply_runtime_def)
  have b: "length (replicate 1500 (CHR ''A'')) = 1500
           \<and> CHR '' '' \<notin> set (replicate 1500 (CHR ''A''))
           \<and> CHR 0x0A \<notin> set (replicate 1500 (CHR ''A''))"
    by simp
  from extraction_first_qualifying_part
    [of "\<lparr>Candidates = [], Error = None\<rparr>" empty_reply_runtime "''{}''"
        "replicate 1500 (CHR ''A'')" "''model''" None] a b
  show ?thesis by blast
qed

text \<open>Claim C3 as stated fails when a qualifying text part comes before a part with
  inline data: the code returns the text, the specification's extraction the inline
  data.\<close>

theorem inline_not_preferred_counterexample:
  "extractImageData text_then_inline = replicate 1001 (CHR ''A'')
   \<and> extract_inline_first text_then_inline = ''QUJD''"
proof -
  have "\<not> Contains (replicate 1001 (CHR ''A'')) '' ''"
    "\<not> Contains (replicate 1001 (CHR ''A'')) [CHR 0x0A]"
    by (simp_all add: Contains_single)
  then show ?thesis
    by (simp add: extractImageData_def extract_inline_first_def text_then_inline_def
        has_inline_data_def inline_data_def long_text_without_space_def)
qed

subsection \<open>Error classification\<close>

lemma demo_bodyStr: "bodyStr (Unmarshal demo_runtime) raw = raw"
  by (simp add: bodyStr_def demo_runtime_def)

lemma demo_lower: "list_all (\<lambda>c. \<not> digit7 c) s \<Longrightarrow> ToLower (MapToLower demo_runtime) s = map lower_byte s"
  by (simp add: ToLower_def)

lemma fmt_d_429: "fmt_d 429 = ''429''"
  by (simp add: fmt_d_def fmt_nat.simps digit_char_def)

text \<open>
  Claim C5 (amended). With the message taken from the parsed error, or else the raw
  body: status 400 gives the safety error when the message contains \<^verbatim>\<open>safety\<close> and
  the malformed-request error otherwise; status 403 gives the invalid-key error when the
  lower-cased message contains \<^verbatim>\<open>api key not valid\<close>, otherwise the quota error when
  it contains \<^verbatim>\<open>quota\<close>, otherwise the authentication error; status 500 gives the
  service error; every other status gives the unclassified error carrying the status
  code and the message. Every status other than 200 is classified this way.
\<close>

theorem error_classification:
  "(Contains (bodyStr (Unmarshal rt) raw) ''safety'' \<longrightarrow>
      handleError rt 400 raw = ''request rejected due to safety concerns'')
   \<and> (\<not> Contains (bodyStr (Unmarshal rt) raw) ''safety'' \<longrightarrow>
      handleError rt 400 raw = ''malformed request: '' @ bodyStr (Unmarshal rt) raw)
   \<and> (Contains (ToLower (MapToLower rt) (bodyStr (Unmarshal rt) raw)) ''api key not valid'' \<longrightarrow>
      handleError rt 403 raw = ''invalid API key'')
   \<and> (\<not> Contains (ToLower (MapToLower rt) (bodyStr (Unmarshal rt) raw)) ''api key not valid''
      \<and> Contains (ToLower (MapToLower rt) (bodyStr (Unmarshal rt) raw)) ''quota'' \<longrightarrow>
      handleError rt 403 raw = ''API quota exceeded'')
   \<and> (\<not> Contains (ToLower (MapToLower rt) (bodyStr (Unmarshal rt) raw)) ''api key not valid''
      \<and> \<not> Contains (ToLower (MapToLower rt) (bodyStr (Unmarshal rt) raw)) ''quota'' \<longrightarrow>
      handleError rt 403 raw = ''authentication failed: '' @ bodyStr (Unmarshal rt) raw)
   \<and> handleError rt 500 raw = ''service error: '' @ bodyStr (Unmarshal rt) raw
   \<and> (statusCode \<noteq> 400 \<and> statusCode \<noteq> 403 \<and> statusCode \<noteq> 500 \<longrightarrow>
      handleError rt statusCode raw
      = ''HTTP '' @ fmt_d statusCode @ '': '' @ bodyStr (Unmarshal rt) raw)
   \<and> (statusCode \<noteq> 200 \<longrightarrow>
      read_response rt (Responded statusCode raw) = Inl (handleError rt statusCode raw))"
  by (simp add: handleError_def Let_def read_response_def)

text \<open>One response for each class.\<close>

theorem error_classification_witness:
  "handleError demo_runtime 400 ''blocked for safety reasons'' = ''request rejected due to safety concerns''
   \<and> handleError demo_runtime 400 ''unknown field'' = ''malformed request: unknown field''
   \<and> handleError demo_runtime 403 ''API Key not valid'' = ''invalid API key''
   \<and> handleError demo_runtime 403 ''Quota exceeded'' = ''API quota exceeded''
   \<and> handleError demo_runtime 403 ''forbidden'' = ''authentication failed: forbidden''
   \<and> handleError demo_runtime 429 ''slow down'' = ''HTTP 429: slow down''
   \<and> read_response demo_runtime (Responded 429 ''slow down'') = Inl ''HTTP 429: slow down''"
proof -
  have a: "Contains (bodyStr (Unmarshal demo_runtime) ''blocked for safety reasons'') ''safety''"
    by (simp add: demo_bodyStr)
  have b: "\<not> Contains (bodyStr (Unmarshal demo_runtime) ''unknown field'') ''safety''"
    by (simp add: demo_bodyStr)
  have c: "Contains (ToLower (MapToLower demo_runtime) (bodyStr (Unmarshal demo_runtime) ''API Key not valid''))
             ''api key not valid''"
    by (simp add: demo_bodyStr demo_lower lower_byte_def)
  have d: "\<not> Contains (ToLower (MapToLower demo_runtime) (bodyStr (Unmarshal demo_runtime) ''Quota exceeded''))
             ''api key not valid''
           \<and> Contains (ToLower (MapToLower demo_runtime) (bodyStr (Unmarshal demo_runtime) ''Quota exceeded''))
             ''quota''"
    by (simp add: demo_bodyStr demo_lower lower_byte_def)
  have e: "\<not> Contains (ToLower (MapToLower demo_runtime) (bodyStr (Unmarshal demo_runtime) ''forbidden''))
             ''api key not valid''
           \<and> \<not> Contains (ToLower (MapToLower demo_runtime) (bodyStr (Unmarshal demo_runtime) ''forbidden''))
             ''quota''"
    by (simp add: demo_bodyStr demo_lower lower_byte_def)
  have f: "(429::int) \<noteq> 400 \<and> (429::int) \<noteq> 403 \<and> (429::int) \<noteq> 500" "(429::int) \<noteq> 200"
    by simp_all
  show ?thesis
    using error_classification [of demo_runtime "''blocked for safety reasons''"] a
      error_classification [of demo_runtime "''unknown field''"] b
      error_classification [of demo_runtime "''API Key not valid''"] c
      error_classification [of demo_runtime "''Quota exceeded''"] d
      error_classification [of demo_runtime "''forbidden''"] e
      error_classification [of demo_runtime "''slow down''" 429] f
    by (simp add: demo_bodyStr fmt_d_429)
qed

text \<open>Claim C5 as stated fails for a 403 whose message mentions both an invalid key and
  a quota: it contains \<^verbatim>\<open>quota\<close> and is classified as an invalid credential.\<close>

theorem quota_with_invalid_key_counterexample:
  "Contains (ToLower (MapToLower demo_runtime)
               (bodyStr (Unmarshal demo_runtime) ''API key not valid for this quota project''))
            ''quota''
   \<and> handleError demo_runtime 403 ''API key not valid for this quota project'' = ''invalid API key''
   \<and> handleError demo_runtime 403 ''API key not valid for this quota project'' \<noteq> ''API quota exceeded''"
  by (simp add: handleError_def demo_bodyStr demo_lower lower_byte_def)

section \<open>Properties of the output namer and writer\<close>

subsection \<open>Filename cleaning\<close>

lemma stem_chars_all:
  "\<forall>c \<in> stem_chars. \<not> digit7 c \<and> lower_byte c = c \<and> kept c \<and> \<not> is_space c \<and> c \<noteq> CHR ''_''"
  unfolding stem_chars_def
  by (simp add: lower_byte_def kept_def is_space_def)

lemma stem_char_props:
  assumes "c \<in> stem_chars"
  shows "\<not> digit7 c" "lower_byte c = c" "kept c" "\<not> is_space c" "c \<noteq> CHR ''_''"
  using assms stem_chars_all by blast+

lemma underscore_props:
  "\<not> digit7 (CHR ''_'')" "lower_byte (CHR ''_'') = CHR ''_''" "\<not> kept (CHR ''_'')"
  by (simp_all add: lower_byte_def kept_def is_space_def)

lemma kept_not_space: "kept c \<Longrightarrow> \<not> is_space c \<Longrightarrow> c \<in> stem_chars"
  by (simp add: kept_def stem_chars_def)

lemma collapse_no_space: "\<forall>c \<in> set x. \<not> is_space c \<Longrightarrow> collapse_spaces x = x"
  by (induction x) auto

lemma collapse_chars:
  "set (collapse_spaces x) \<subseteq> {c \<in> set x. \<not> is_space c} \<union> {CHR ''_''}"
proof (induction x rule: collapse_spaces.induct)
  case 1
  then show ?case by simp
next
  case (2 c cs)
  show ?case
  proof (cases "is_space c")
    case True
    with 2 have "set (collapse_spaces (dropWhile is_space cs))
        \<subseteq> {c \<in> set (dropWhile is_space cs). \<not> is_space c} \<union> {CHR ''_''}"
      by simp
    moreover have "set (dropWhile is_space cs) \<subseteq> set cs"
      by (auto dest: set_dropWhileD)
    ultimately show ?thesis using True by auto
  next
    case False
    with 2 show ?thesis by auto
  qed
qed

lemma Trim_subset: "set (Trim s cutset) \<subseteq> set s"
  by (auto simp: Trim_def dest!: set_dropWhileD)

lemma dropWhile_none: "\<forall>c \<in> set xs. \<not> P c \<Longrightarrow> dropWhile P xs = xs"
  by (cases xs) auto

lemma Trim_none: "set s \<inter> set cutset = {} \<Longrightarrow> Trim s cutset = s"
proof -
  assume a: "set s \<inter> set cutset = {}"
  then have "dropWhile (\<lambda>c. c \<in> set cutset) s = s"
    by (intro dropWhile_none) blast
  moreover from a have "dropWhile (\<lambda>c. c \<in> set cutset) (rev s) = rev s"
    by (intro dropWhile_none) (simp, blast)
  ultimately show ?thesis by (simp add: Trim_def)
qed

lemma strip_end_hd:
  "rev (dropWhile P (rev (x # ys))) \<noteq> [] \<Longrightarrow> hd (rev (dropWhile P (rev (x # ys)))) = x"
  by (auto simp: dropWhile_append split: if_splits)

lemma Trim_ends:
  assumes "Trim s cutset \<noteq> []"
  shows "hd (Trim s cutset) \<notin> set cutset" "last (Trim s cutset) \<notin> set cutset"
proof -
  let ?P = "\<lambda>c. c \<in> set cutset"
  obtain y where y: "y = dropWhile ?P s" by simp
  obtain z where z: "z = dropWhile ?P (rev y)" by simp
  have t: "Trim s cutset = rev z" by (simp add: Trim_def y z)
  with assms have nz: "z \<noteq> []" by simp
  then have "\<not> ?P (hd z)" unfolding z by (rule hd_dropWhile)
  then show "last (Trim s cutset) \<notin> set cutset"
    using nz by (simp add: t last_rev)
  from nz have ny: "y \<noteq> []" unfolding z by (cases y) simp_all
  then obtain x ys where c: "y = x # ys" by (cases y) auto
  from ny have "\<not> ?P (hd y)" unfolding y by (rule hd_dropWhile)
  moreover have "hd (rev z) = x"
    using nz unfolding z c by (intro strip_end_hd) simp
  ultimately show "hd (Trim s cutset) \<notin> set cutset"
    by (simp add: t c)
qed

lemma cleanPrompt_chars: "set (cleanPrompt u s) \<subseteq> stem_chars \<union> {CHR ''_''}"
proof -
  have "set (cleanPrompt u s) \<subseteq> set (collapse_spaces (filter kept (ToLower u s)))"
    unfolding cleanPrompt_def by (rule Trim_subset)
  also have "\<dots> \<subseteq> {c \<in> set (filter kept (ToLower u s)). \<not> is_space c} \<union> {CHR ''_''}"
    by (rule collapse_chars)
  also have "\<dots> \<subseteq> stem_chars \<union> {CHR ''_''}"
    by (auto dest: kept_not_space)
  finally show ?thesis .
qed

lemma clean_again:
  assumes "set t \<subseteq> stem_chars \<union> {CHR ''_''}"
  shows "cleanPrompt u t = filter (\<lambda>c. c \<noteq> CHR ''_'') t"
proof -
  have ascii: "list_all (\<lambda>c. \<not> digit7 c) t"
    using assms stem_char_props(1) underscore_props(1) by (auto simp: list_all_iff)
  have "map lower_byte t = t"
    using assms stem_char_props(2) underscore_props(2) by (auto intro!: map_idI)
  with ascii have low: "ToLower u t = t" by (simp add: ToLower_def)
  have f: "filter kept t = filter (\<lambda>c. c \<noteq> CHR ''_'') t"
    using assms stem_char_props(3,5) underscore_props(3) by (auto intro!: filter_cong)
  have sub: "set (filter (\<lambda>c. c \<noteq> CHR ''_'') t) \<subseteq> stem_chars"
    using assms by auto
  then have "collapse_spaces (filter (\<lambda>c. c \<noteq> CHR ''_'') t) = filter (\<lambda>c. c \<noteq> CHR ''_'') t"
    using stem_char_props(4) by (intro collapse_no_space) auto
  moreover have "Trim (filter (\<lambda>c. c \<noteq> CHR ''_'') t) ''_'' = filter (\<lambda>c. c \<noteq> CHR ''_'') t"
    by (intro Trim_none) auto
  ultimately show ?thesis
    by (simp add: cleanPrompt_def low f)
qed

lemma clean_fixed:
  assumes "set t \<subseteq> stem_chars"
  shows "cleanPrompt u t = t"
proof -
  have "cleanPrompt u t = filter (\<lambda>c. c \<noteq> CHR ''_'') t"
    using assms by (intro clean_again) auto
  also have "\<dots> = t"
    using assms stem_char_props(5) by (auto intro!: filter_True)
  finally show ?thesis .
qed

lemma GenerateFilename_stem:
  "GenerateFilename u prompt [] 0 = take 50 (cleanPrompt u prompt) @ ''.png''"
  by (simp add: GenerateFilename_def Let_def)

lemma clean_cyberpunk: "cleanPrompt u ''Cyberpunk City!!'' = ''cyberpunk_city''"
  by (simp add: cleanPrompt_def ToLower_def lower_byte_def kept_def is_space_def Trim_def)

lemma clean_abc: "cleanPrompt u ''a-b-c'' = ''a-b-c''"
  by (simp add: cleanPrompt_def ToLower_def lower_byte_def kept_def is_space_def Trim_def)

lemma upper_all:
  "\<forall>c \<in> set ''ABCDEFGHIJKLMNOPQRSTUVWXYZ''. lower_byte (lower_byte c) = lower_byte c
      \<and> \<not> digit7 (lower_byte c)"
  by (simp add: lower_byte_def)

lemma lower_byte_other:
  "c \<notin> set ''ABCDEFGHIJKLMNOPQRSTUVWXYZ'' \<Longrightarrow> lower_byte c = c"
  by (simp add: lower_byte_def)

lemma lower_byte_idem: "lower_byte (lower_byte c) = lower_byte c"
  using upper_all lower_byte_other by (cases "c \<in> set ''ABCDEFGHIJKLMNOPQRSTUVWXYZ''") auto

lemma lower_byte_ascii: "\<not> digit7 c \<Longrightarrow> \<not> digit7 (lower_byte c)"
  using upper_all lower_byte_other by (cases "c \<in> set ''ABCDEFGHIJKLMNOPQRSTUVWXYZ''") auto

lemma clean_case_insensitive:
  assumes "list_all (\<lambda>c. \<not> digit7 c) s"
  shows "cleanPrompt u (map lower_byte s) = cleanPrompt u s"
proof -
  have "list_all (\<lambda>c. \<not> digit7 c) (map lower_byte s)"
    using assms by (auto simp: list_all_iff lower_byte_ascii)
  then have "ToLower u (map lower_byte s) = map lower_byte s"
    by (simp add: ToLower_def lower_byte_idem)
  moreover have "ToLower u s = map lower_byte s"
    using assms by (simp add: ToLower_def)
  ultimately show ?thesis by (simp add: cleanPrompt_def)
qed

lemma collapse_hd:
  "x \<noteq> [] \<Longrightarrow> \<not> is_space (hd x) \<Longrightarrow> hd (collapse_spaces x) = hd x \<and> collapse_spaces x \<noteq> []"
  by (cases x) auto

lemma collapse_no_double:
  "CHR ''_'' \<notin> set x \<Longrightarrow> \<not> sublist ''__'' (collapse_spaces x)"
proof (induction x rule: collapse_spaces.induct)
  case 1
  then show ?case by simp
next
  case (2 c cs)
  show ?case
  proof (cases "is_space c")
    case True
    let ?y = "dropWhile is_space cs"
    have sub: "set ?y \<subseteq> set cs" by (auto dest: set_dropWhileD)
    with "2.prems" have no: "CHR ''_'' \<notin> set ?y" by auto
    with True "2.IH"(1) have ih: "\<not> sublist ''__'' (collapse_spaces ?y)" by simp
    have "\<not> prefix ''__'' (CHR ''_'' # collapse_spaces ?y)"
    proof (cases "?y = []")
      case True
      then have "collapse_spaces ?y = []" by (simp only: collapse_spaces.simps)
      then show ?thesis by (simp only: prefix_Cons) simp
    next
      case False
      then have "\<not> is_space (hd ?y)" by (rule hd_dropWhile)
      with False have "hd (collapse_spaces ?y) = hd ?y" "collapse_spaces ?y \<noteq> []"
        using collapse_hd by blast+
      moreover from False no have "hd ?y \<noteq> CHR ''_''" by (cases ?y) auto
      ultimately show ?thesis by (cases "collapse_spaces ?y") auto
    qed
    with ih True show ?thesis by (simp add: sublist_Cons_right)
  next
    case False
    with "2.prems" "2.IH"(2) have "\<not> sublist ''__'' (collapse_spaces cs)" by simp
    moreover from "2.prems" have "c \<noteq> CHR ''_''" by auto
    ultimately show ?thesis using False by (simp add: sublist_Cons_right)
  qed
qed

lemma Trim_sublist: "sublist (Trim s cutset) s"
proof -
  let ?P = "\<lambda>c. c \<in> set cutset"
  let ?y = "dropWhile ?P s"
  have "rev (takeWhile ?P (rev ?y) @ dropWhile ?P (rev ?y)) = ?y"
    by (simp only: takeWhile_dropWhile_id rev_rev_ident)
  then have "rev (dropWhile ?P (rev ?y)) @ rev (takeWhile ?P (rev ?y)) = ?y"
    by (simp only: rev_append)
  then have "prefix (Trim s cutset) ?y"
    unfolding Trim_def by (metis prefixI)
  moreover have "suffix ?y s"
    by (rule suffix_dropWhile)
  ultimately show ?thesis
    by (meson prefix_imp_sublist suffix_imp_sublist sublist_order.order_trans)
qed

lemma clean_no_double: "\<not> Contains (cleanPrompt u s) ''__''"
proof
  assume "Contains (cleanPrompt u s) ''__''"
  then have "sublist ''__'' (cleanPrompt u s)" by (simp add: Contains_sublist)
  moreover have "sublist (cleanPrompt u s) (collapse_spaces (filter kept (ToLower u s)))"
    unfolding cleanPrompt_def by (rule Trim_sublist)
  ultimately have "sublist ''__'' (collapse_spaces (filter kept (ToLower u s)))"
    by (rule sublist_order.order_trans)
  moreover have "CHR ''_'' \<notin> set (filter kept (ToLower u s))"
    by (simp add: underscore_props)
  ultimately show False using collapse_no_double by blast
qed

text \<open>
  Claim C8 (amended). Cleaning lower-cases the prompt (an ASCII prompt and its lower-case
  form clean to the same string), keeps only a-z, 0-9 and hyphens besides the separator
  \<^verbatim>\<open>_\<close> that stands for each run of white space (no two separators are adjacent),
  and neither starts nor ends with the separator; the stem of the file name is its first
  50 characters at most. Cleaning is the identity on input made of a-z, 0-9 and hyphens,
  so \<^verbatim>\<open>a-b-c\<close> stays \<^verbatim>\<open>a-b-c\<close>; cleaning a cleaned prompt again removes its
  separators; \<^verbatim>\<open>Cyberpunk City!!\<close> becomes \<^verbatim>\<open>cyberpunk_city\<close>.
\<close>

theorem filename_cleaning:
  "set (cleanPrompt u s) \<subseteq> stem_chars \<union> {CHR ''_''}
   \<and> (list_all (\<lambda>c. \<not> digit7 c) s \<longrightarrow> cleanPrompt u (map lower_byte s) = cleanPrompt u s)
   \<and> \<not> Contains (cleanPrompt u s) ''__''
   \<and> (cleanPrompt u s \<noteq> [] \<longrightarrow>
        hd (cleanPrompt u s) \<noteq> CHR ''_'' \<and> last (cleanPrompt u s) \<noteq> CHR ''_'')
   \<and> GenerateFilename u s [] 0 = take 50 (cleanPrompt u s) @ ''.png''
   \<and> length (take 50 (cleanPrompt u s)) \<le> 50
   \<and> (set s \<subseteq> stem_chars \<longrightarrow> cleanPrompt u s = s)
   \<and> cleanPrompt u (cleanPrompt u s) = filter (\<lambda>c. c \<noteq> CHR ''_'') (cleanPrompt u s)
   \<and> cleanPrompt u ''a-b-c'' = ''a-b-c''
   \<and> cleanPrompt u ''Cyberpunk City!!'' = ''cyberpunk_city''"
proof (intro conjI impI)
  show "set (cleanPrompt u s) \<subseteq> stem_chars \<union> {CHR ''_''}"
    by (rule cleanPrompt_chars)
  show "\<not> Contains (cleanPrompt u s) ''__''"
    by (rule clean_no_double)
  show "cleanPrompt u (cleanPrompt u s) = filter (\<lambda>c. c \<noteq> CHR ''_'') (cleanPrompt u s)"
    by (intro clean_again cleanPrompt_chars)
  show "GenerateFilename u s [] 0 = take 50 (cleanPrompt u s) @ ''.png''"
    by (rule GenerateFilename_stem)
  show "length (take 50 (cleanPrompt u s)) \<le> 50" by simp
  show "cleanPrompt u ''a-b-c'' = ''a-b-c''" by (rule clean_abc)
  show "cleanPrompt u ''Cyberpunk City!!'' = ''cyberpunk_city''" by (rule clean_cyberpunk)
next
  assume "list_all (\<lambda>c. \<not> digit7 c) s"
  then show "cleanPrompt u (map lower_byte s) = cleanPrompt u s"
    by (rule clean_case_insensitive)
next
  assume "set s \<subseteq> stem_chars"
  then show "cleanPrompt u s = s" by (rule clean_fixed)
next
  assume "cleanPrompt u s \<noteq> []"
  then have "Trim (collapse_spaces (filter kept (ToLower u s))) ''_'' \<noteq> []"
    by (simp add: cleanPrompt_def)
  from Trim_ends [OF this]
  show "hd (cleanPrompt u s) \<noteq> CHR ''_''" "last (cleanPrompt u s) \<noteq> CHR ''_''"
    by (simp_all add: cleanPrompt_def)
qed

text \<open>The theorem on a prompt of 200 letters and on the prompt of the example.\<close>

theorem filename_cleaning_witness:
  "GenerateFilename (MapToLower demo_runtime) (replicate 200 (CHR ''x'')) [] 0
     = replicate 50 (CHR ''x'') @ ''.png''
   \<and> cleanPrompt (MapToLower demo_runtime) (replicate 200 (CHR ''x'')) = replicate 200 (CHR ''x'')
   \<and> cleanPrompt (MapToLower demo_runtime) ''cyberpunk city!!'' = ''cyberpunk_city''
   \<and> hd (cleanPrompt (MapToLower demo_runtime) ''Cyberpunk City!!'') \<noteq> CHR ''_''
   \<and> last (cleanPrompt (MapToLower demo_runtime) ''Cyberpunk City!!'') \<noteq> CHR ''_''"
proof -
  have a: "set (replicate 200 (CHR ''x'')) \<subseteq> stem_chars"
    by (simp add: stem_chars_def)
  have t: "take 50 (replicate 200 (CHR ''x'')) = replicate 50 (CHR ''x'')"
    by simp
  from filename_cleaning [of "MapToLower demo_runtime" "replicate 200 (CHR ''x'')"] a t
  have first: "GenerateFilename (MapToLower demo_runtime) (replicate 200 (CHR ''x'')) [] 0
     = replicate 50 (CHR ''x'') @ ''.png''
   \<and> cleanPrompt (MapToLower demo_runtime) (replicate 200 (CHR ''x'')) = replicate 200 (CHR ''x'')"
    by simp
  have ascii: "list_all (\<lambda>c. \<not> digit7 c) ''Cyberpunk City!!''"
    by simp
  have low: "map lower_byte ''Cyberpunk City!!'' = ''cyberpunk city!!''"
    by (simp add: lower_byte_def)
  have city: "cleanPrompt (MapToLower demo_runtime) ''Cyberpunk City!!'' = ''cyberpunk_city''"
    using filename_cleaning [of "MapToLower demo_runtime" "[]"] by simp
  then have ne: "cleanPrompt (MapToLower demo_runtime) ''Cyberpunk City!!'' \<noteq> []"
    by simp
  from filename_cleaning [of "MapToLower demo_runtime" "''Cyberpunk City!!''"] ascii ne
  have "cleanPrompt (MapToLower demo_runtime) (map lower_byte ''Cyberpunk City!!'')
          = cleanPrompt (MapToLower demo_runtime) ''Cyberpunk City!!''
        \<and> hd (cleanPrompt (MapToLower demo_runtime) ''Cyberpunk City!!'') \<noteq> CHR ''_''
        \<and> last (cleanPrompt (MapToLower demo_runtime) ''Cyberpunk City!!'') \<noteq> CHR ''_''"
    by blast
  with first city show ?thesis unfolding low by simp
qed

text \<open>Claim C8 as stated fails on a cleaned prompt that holds a separator: cleaning it
  again gives a different string.\<close>

theorem cleaned_stem_not_fixed_counterexample:
  "cleanPrompt (MapToLower demo_runtime) ''Cyberpunk City!!'' = ''cyberpunk_city''
   \<and> cleanPrompt (MapToLower demo_runtime) ''cyberpunk_city'' = ''cyberpunkcity''"
  by (simp add: cleanPrompt_def ToLower_def lower_byte_def kept_def is_space_def Trim_def)

subsection \<open>Decimal rendering is injective\<close>

lemma fmt_nat_nonempty: "fmt_nat n \<noteq> []"
  by (subst fmt_nat.simps) simp

lemma digit_char_inj: "a < 10 \<Longrightarrow> b < 10 \<Longrightarrow> digit_char a = digit_char b \<Longrightarrow> a = b"
proof -
  assume a: "a < 10" and b: "b < 10" and eq: "digit_char a = digit_char b"
  have d: "distinct ''0123456789''" by simp
  from a b have "a < length ''0123456789''" "b < length ''0123456789''" by simp_all
  with d eq show "a = b"
    unfolding digit_char_def by (simp only: nth_eq_iff_index_eq)
qed

lemma fmt_nat_inj: "fmt_nat n = fmt_nat m \<Longrightarrow> n = m"
proof (induction n arbitrary: m rule: fmt_nat.induct)
  case (1 n)
  show ?case
  proof (cases "n < 10")
    case small_n: True
    show ?thesis
    proof (cases "m < 10")
      case True
      with small_n "1.prems" show ?thesis
        by (simp add: fmt_nat.simps [of n] fmt_nat.simps [of m] digit_char_inj)
    next
      case False
      with small_n "1.prems" have "fmt_nat (m div 10) = []"
        by (simp add: fmt_nat.simps [of n] fmt_nat.simps [of m])
      then show ?thesis by (simp add: fmt_nat_nonempty)
    qed
  next
    case big_n: False
    show ?thesis
    proof (cases "m < 10")
      case True
      with big_n "1.prems" have "fmt_nat (n div 10) = []"
        by (simp add: fmt_nat.simps [of n] fmt_nat.simps [of m])
      then show ?thesis by (simp add: fmt_nat_nonempty)
    next
      case False
      with big_n "1.prems" have parts: "fmt_nat (n div 10) = fmt_nat (m div 10)"
        "digit_char (n mod 10) = digit_char (m mod 10)"
        by (simp_all add: fmt_nat.simps [of n] fmt_nat.simps [of m])
      from parts(1) big_n have "n div 10 = m div 10" by (intro "1.IH") simp_all
      moreover from parts(2) have "n mod 10 = m mod 10" by (intro digit_char_inj) simp_all
      ultimately show ?thesis by (metis div_mult_mod_eq)
    qed
  qed
qed

lemma fmt_d_inj: "0 \<le> i \<Longrightarrow> 0 \<le> j \<Longrightarrow> fmt_d i = fmt_d j \<Longrightarrow> i = j"
  by (auto simp: fmt_d_def dest: fmt_nat_inj)

lemma newPath_inj:
  "0 \<le> i \<Longrightarrow> 0 \<le> j \<Longrightarrow> newPath base ext i = newPath base ext j \<Longrightarrow> i = j"
  by (auto simp: newPath_def dest: fmt_d_inj)

subsection \<open>The extension\<close>

lemma ext_scan_suffix: "suffix (ext_scan acc cs) (rev cs @ acc)"
proof (induction cs arbitrary: acc)
  case Nil
  then show ?case by simp
next
  case (Cons c cs)
  have "suffix (c # acc) (rev cs @ c # acc)" by (simp add: suffix_def)
  moreover have "suffix (ext_scan (c # acc) cs) (rev cs @ c # acc)" by (rule Cons.IH)
  ultimately show ?case by (auto simp: suffix_def)
qed

lemma Ext_suffix: "suffix (Ext path) path"
  using ext_scan_suffix [of "[]" "rev path"] by (simp add: Ext_def)

lemma base_ext: "TrimSuffix path (Ext path) @ Ext path = path"
proof -
  obtain zs where zs: "path = zs @ Ext path"
    using Ext_suffix [of path] by (auto simp: suffix_def)
  then have "length path - length (Ext path) = length zs"
    by (metis add_diff_cancel_right' length_append)
  then have "take (length path - length (Ext path)) path = zs"
    using zs by (metis append_eq_conv_conj)
  with zs show ?thesis
    using Ext_suffix [of path] by (simp add: TrimSuffix_def)
qed


subsection \<open>The search for a free name\<close>

lemma unique_loop_least:
  "counter \<le> k \<Longrightarrow> k \<le> 2 ^ (bits - 1) - 1 \<Longrightarrow>
   stat (newPath base ext k) = StatNotExist \<Longrightarrow>
   \<forall>j. counter \<le> j \<and> j < k \<longrightarrow> stat (newPath base ext j) \<noteq> StatNotExist \<Longrightarrow>
   unique_loop bits stat base ext counter = Some (newPath base ext k)"
proof (induction "nat (k - counter)" arbitrary: counter)
  case 0
  then have "counter = k" by simp
  with 0 show ?case by (subst unique_loop.simps) simp
next
  case (Suc d)
  then have lt: "counter < k" by linarith
  with Suc.prems have here: "stat (newPath base ext counter) \<noteq> StatNotExist" by simp
  from lt Suc.prems(2) have step: "next_int bits counter = counter + 1"
    by (simp add: next_int_def)
  have "unique_loop bits stat base ext (counter + 1) = Some (newPath base ext k)"
    using Suc.hyps(2) Suc.prems lt by (intro Suc.hyps(1)) auto
  with here step show ?case by (subst unique_loop.simps) simp
qed

lemma unique_loop_result:
  assumes "unique_loop bits stat base ext counter = Some p"
  shows "stat p = StatNotExist \<and> (\<exists>k. p = newPath base ext k)"
  by (rule unique_loop.raw_induct
        [where P = "\<lambda>bits stat base ext counter p.
                      stat p = StatNotExist \<and> (\<exists>k. p = newPath base ext k)", OF _ assms])
     (auto split: if_splits)

lemma unique_loop_never:
  "\<forall>k. stat (newPath base ext k) \<noteq> StatNotExist \<Longrightarrow>
   unique_loop bits stat base ext counter = None"
  using unique_loop_result [of bits stat base ext counter]
  by (cases "unique_loop bits stat base ext counter") auto

lemma free_suffix_exists:
  assumes "finite {p. stat p \<noteq> StatNotExist}"
    and "card {p. stat p \<noteq> StatNotExist} < nat (2 ^ (bits - 1) - 1)"
  shows "\<exists>k. 1 \<le> k \<and> k \<le> 2 ^ (bits - 1) - 1 \<and> stat (newPath base ext k) = StatNotExist
           \<and> (\<forall>j. 1 \<le> j \<and> j < k \<longrightarrow> stat (newPath base ext j) \<noteq> StatNotExist)"
proof -
  let ?M = "2 ^ (bits - 1) - 1 :: int"
  let ?taken = "{p. stat p \<noteq> StatNotExist}"
  have "\<exists>k. 1 \<le> k \<and> k \<le> ?M \<and> stat (newPath base ext k) = StatNotExist"
  proof (rule ccontr)
    assume "\<not> (\<exists>k. 1 \<le> k \<and> k \<le> ?M \<and> stat (newPath base ext k) = StatNotExist)"
    then have sub: "newPath base ext ` {1..?M} \<subseteq> ?taken" by auto
    have "inj_on (newPath base ext) {1..?M}"
    proof (rule inj_onI)
      fix x y :: int
      assume "x \<in> {1..?M}" "y \<in> {1..?M}" "newPath base ext x = newPath base ext y"
      then show "x = y" by (intro newPath_inj [of x y base ext]) simp_all
    qed
    then have "card (newPath base ext ` {1..?M}) = card {1..?M}" by (rule card_image)
    also have "\<dots> = nat ?M" by simp
    finally have "nat ?M \<le> card ?taken"
      using sub assms(1) by (metis card_mono)
    with assms(2) show False by simp
  qed
  then obtain k where k: "1 \<le> k" "k \<le> ?M" "stat (newPath base ext k) = StatNotExist" by blast
  define n where "n = (LEAST n. stat (newPath base ext (1 + int n)) = StatNotExist)"
  have "stat (newPath base ext (1 + int (nat (k - 1)))) = StatNotExist" using k by simp
  then have free: "stat (newPath base ext (1 + int n)) = StatNotExist"
    and le: "n \<le> nat (k - 1)"
    unfolding n_def by (rule LeastI, rule Least_le)
  have least: "stat (newPath base ext (1 + int m)) \<noteq> StatNotExist" if "m < n" for m
    using that not_less_Least unfolding n_def by blast
  have "\<forall>j. 1 \<le> j \<and> j < 1 + int n \<longrightarrow> stat (newPath base ext j) \<noteq> StatNotExist"
  proof (intro allI impI)
    fix j assume j: "1 \<le> j \<and> j < 1 + int n"
    then have "nat (j - 1) < n" by linarith
    from least [OF this] j show "stat (newPath base ext j) \<noteq> StatNotExist" by simp
  qed
  moreover from le k have "1 + int n \<le> ?M" by linarith
  ultimately show ?thesis using free by (intro exI [of _ "1 + int n"]) simp
qed

lemma ensure_least:
  assumes "stat path \<noteq> StatNotExist" "1 \<le> k" "k \<le> 2 ^ (bits - 1) - 1"
    and "stat (newPath (TrimSuffix path (Ext path)) (Ext path) k) = StatNotExist"
    and "\<forall>j. 1 \<le> j \<and> j < k \<longrightarrow>
           stat (newPath (TrimSuffix path (Ext path)) (Ext path) j) \<noteq> StatNotExist"
  shows "EnsureUniqueFilename bits stat path
         = Some (TrimSuffix path (Ext path) @ ''_'' @ fmt_d k @ Ext path)"
  using assms unique_loop_least [of 1 k bits stat "TrimSuffix path (Ext path)" "Ext path"]
  by (simp add: EnsureUniqueFilename_def newPath_def)

lemma ensure_free:
  "EnsureUniqueFilename bits stat path = Some p \<Longrightarrow> stat p = StatNotExist"
  by (auto simp: EnsureUniqueFilename_def dest: unique_loop_result split: if_splits)

lemma ensure_terminates:
  assumes "finite {p. stat p \<noteq> StatNotExist}"
    and "card {p. stat p \<noteq> StatNotExist} < nat (2 ^ (bits - 1) - 1)"
  shows "\<exists>p. EnsureUniqueFilename bits stat path = Some p"
proof (cases "stat path = StatNotExist")
  case True
  then show ?thesis by (simp add: EnsureUniqueFilename_def)
next
  case False
  from free_suffix_exists [OF assms, of "TrimSuffix path (Ext path)" "Ext path"]
  obtain k where "1 \<le> k" "k \<le> 2 ^ (bits - 1) - 1"
    "stat (newPath (TrimSuffix path (Ext path)) (Ext path) k) = StatNotExist"
    "\<forall>j. 1 \<le> j \<and> j < k \<longrightarrow>
           stat (newPath (TrimSuffix path (Ext path)) (Ext path) j) \<noteq> StatNotExist"
    by blast
  from ensure_least [OF False this] show ?thesis by blast
qed

lemma taken_after_write:
  "stat p = StatNotExist \<Longrightarrow>
   {q. (stat(p := StatOK)) q \<noteq> StatNotExist} = insert p {q. stat q \<noteq> StatNotExist}"
  by auto

lemma write_times_distinct:
  "finite {p. stat p \<noteq> StatNotExist} \<Longrightarrow>
   card {p. stat p \<noteq> StatNotExist} + n \<le> nat (2 ^ (bits - 1) - 1) \<Longrightarrow>
   \<exists>ps. write_times bits stat path n = Some ps \<and> length ps = n \<and> distinct ps
        \<and> (\<forall>p \<in> set ps. stat p = StatNotExist)"
proof (induction n arbitrary: stat)
  case 0
  then show ?case by simp
next
  case (Suc n)
  let ?taken = "{p. stat p \<noteq> StatNotExist}"
  from Suc.prems have "card ?taken < nat (2 ^ (bits - 1) - 1)" by simp
  from ensure_terminates [OF Suc.prems(1) this] obtain p
    where p: "EnsureUniqueFilename bits stat path = Some p" by blast
  then have free: "stat p = StatNotExist" by (rule ensure_free)
  let ?stat = "stat(p := StatOK)"
  have taken: "{q. ?stat q \<noteq> StatNotExist} = insert p ?taken"
    using free by (rule taken_after_write)
  have "p \<notin> ?taken" using free by simp
  with Suc.prems(1) have "card (insert p ?taken) = Suc (card ?taken)" by simp
  with Suc.prems taken have fin: "finite {q. ?stat q \<noteq> StatNotExist}"
    and room: "card {q. ?stat q \<noteq> StatNotExist} + n \<le> nat (2 ^ (bits - 1) - 1)"
    by simp_all
  from Suc.IH [OF fin room] obtain ps
    where ps: "write_times bits ?stat path n = Some ps" "length ps = n" "distinct ps"
      "\<forall>q \<in> set ps. ?stat q = StatNotExist" by blast
  from ps(4) have "p \<notin> set ps" by auto
  moreover from ps(4) have "\<forall>q \<in> set ps. stat q = StatNotExist"
    by (metis fun_upd_apply stat_result.distinct(1))
  ultimately show ?case using p free ps by auto
qed

lemma below_parts:
  "Ext ''file.txt/x.png'' = ''.png''" "TrimSuffix ''file.txt/x.png'' ''.png'' = ''file.txt/x''"
  by (simp_all add: Ext_def TrimSuffix_def suffix_to_prefix)

lemma below_candidates:
  "below_a_file (newPath ''file.txt/x'' ''.png'' k) \<noteq> StatNotExist"
  by (simp add: below_a_file_def newPath_def)

text \<open>
  Claim C7, at a path below a regular file. No file exists at \<^verbatim>\<open>file.txt/x.png\<close> when
  \<^verbatim>\<open>file.txt\<close> is a regular file, so the claim has \<^verbatim>\<open>EnsureUniqueFilename\<close> return
  the path unchanged. But \<^verbatim>\<open>os.Stat\<close> fails there with an error that is not a not-exist
  error, the function takes the path for an existing file, every candidate
  \<^verbatim>\<open>file.txt/x_1.png\<close>, \<^verbatim>\<open>file.txt/x_2.png\<close>, ... fails in the same way, and the loop
  never returns, with an \<^verbatim>\<open>int\<close> of 64 bits as with one of 32. (Where \<^verbatim>\<open>os.Stat\<close>
  only ever succeeds or reports a not-exist error, the lemmas above give what the claim
  says: the input when it is free, else the least free suffix from 1, and distinct
  paths for successive writes.)
\<close>

theorem unique_filename_below_a_file:
  "below_a_file ''file.txt/x.png'' = StatOtherError
   \<and> EnsureUniqueFilename 64 below_a_file ''file.txt/x.png'' = None
   \<and> EnsureUniqueFilename 32 below_a_file ''file.txt/x.png'' = None"
proof -
  have "below_a_file ''file.txt/x.png'' = StatOtherError"
    by (simp add: below_a_file_def)
  moreover have "unique_loop bits below_a_file ''file.txt/x'' ''.png'' 1 = None" for bits
    by (intro unique_loop_never allI below_candidates)
  ultimately show ?thesis
    by (simp add: EnsureUniqueFilename_def below_parts)
qed

subsection \<open>Saving\<close>

text \<open>
  Claim C10. When the payload does not decode as base64, \<^verbatim>\<open>SaveImage\<close> returns the
  decode error and the disk is as it was: no directory is created and no file written.
\<close>

theorem decode_failure_leaves_disk:
  "DecodeString ops imageData = Inl err \<Longrightarrow>
   SaveImage ops imageData outputPath disk
   = (Some (''failed to decode image data: '' @ err), disk)"
  by (simp add: SaveImage_def)

text \<open>The theorem on a disk that already holds the output file.\<close>

theorem decode_failure_witness:
  "DecodeString demo_host ''!!!'' = Inl ''illegal base64 data at input byte 0''
   \<and> SaveImage demo_host ''!!!'' ''out/fox.png'' [''write out/fox.png'']
     = (Some ''failed to decode image data: illegal base64 data at input byte 0'',
        [''write out/fox.png''])"
proof -
  have d: "DecodeString demo_host ''!!!'' = Inl ''illegal base64 data at input byte 0''"
    by (simp add: demo_host_def)
  from decode_failure_leaves_disk [OF d, of "''out/fox.png''" "[''write out/fox.png'']"] d
  show ?thesis by simp
qed

section \<open>Properties of the commands\<close>

subsection \<open>The number of images\<close>

lemma check_inputs_exist:
  "\<forall>p \<in> set inputs. Stat h p \<noteq> StatNotExist \<Longrightarrow> check_inputs h inputs = None"
  by (induction inputs) auto

lemma fmt_d_pos_hd: "0 \<le> n \<Longrightarrow> fmt_d n \<noteq> []"
  by (simp add: fmt_d_def) (subst fmt_nat.simps, simp)

lemma too_many_hd: "hd (too_many_images m) = CHR ''t''"
  by (simp add: too_many_images_def)

lemma validate_aspect_hd: "ValidateAspectRatio a = Some e \<Longrightarrow> hd e = CHR ''u''"
  by (auto simp: ValidateAspectRatio_def split: if_splits)

lemma validate_few:
  assumes "Stat h baseImagePath \<noteq> StatNotExist"
    and "\<forall>p \<in> set (editInputs flags). Stat h p \<noteq> StatNotExist"
    and "1 + int (length (editInputs flags)) \<le> 14"
    and "runEdit_validate h flags baseImagePath = (out, Some e)"
  shows "hd e \<noteq> CHR ''t''"
  using assms check_inputs_exist [OF assms(2)]
  by (auto simp: runEdit_validate_def Let_def split: if_splits option.splits
      dest: validate_aspect_hd)

lemma load_inputs_hd: "load_inputs h i inputs = (lines, Inl e) \<Longrightarrow> hd e = CHR ''f''"
  by (induction h i inputs arbitrary: lines rule: load_inputs.induct)
     (auto simp: Let_def split: sum.splits prod.splits)

lemma load_hd: "runEdit_load h flags baseImagePath = (lines, Inl e) \<Longrightarrow> hd e = CHR ''f''"
  by (auto simp: runEdit_load_def Let_def split: sum.splits prod.splits dest: load_inputs_hd)

lemma dispatch_hd:
  "runEdit_dispatch rt flags instruction imgs = (lines, Inl e, sent) \<Longrightarrow> hd e = CHR ''f''"
  by (auto simp: runEdit_dispatch_def Let_def split: sum.splits)

lemma validate_many:
  assumes "Stat h baseImagePath \<noteq> StatNotExist"
    and "\<forall>p \<in> set (editInputs flags). Stat h p \<noteq> StatNotExist"
    and "14 < 1 + int (length (editInputs flags))"
  shows "runEdit_validate h flags baseImagePath
         = ([], Some (too_many_images (1 + int (length (editInputs flags)))))"
  using assms check_inputs_exist [OF assms(2)]
  by (simp add: runEdit_validate_def Let_def)

lemma validate_warns:
  assumes "Stat h baseImagePath \<noteq> StatNotExist"
    and "\<forall>p \<in> set (editInputs flags). Stat h p \<noteq> StatNotExist"
    and "3 < 1 + int (length (editInputs flags))"
    and "1 + int (length (editInputs flags)) \<le> 14"
  shows "prefix [Warning (''Using '' @ fmt_d (1 + int (length (editInputs flags)))
                          @ '' images. API works best with 3 or fewer images.'')]
           (fst (runEdit_validate h flags baseImagePath))"
  using assms check_inputs_exist [OF assms(2)]
  by (simp add: runEdit_validate_def Let_def split: option.splits)

lemma runEdit_printed_prefix:
  "prefix (fst (runEdit_validate h flags baseImagePath))
          (fst (runEdit rt h flags baseImagePath instruction))"
  by (auto simp: runEdit_def split: prod.splits option.splits sum.splits)

subsection \<open>Clients\<close>


lemma NewClientWithModel_ok:
  "getAPIKey getenv \<noteq> [] \<Longrightarrow>
   NewClientWithModel getenv m = Inr \<lparr>apiKey = getAPIKey getenv, model = m, baseURL = BaseURL\<rparr>"
  by (simp add: NewClientWithModel_def Let_def)


lemma full_options_sends:
  assumes "ValidateAspectRatio aspectRatio = None" and "\<forall>u. NewRequest rt u = None"
  shows "snd (GenerateContentWithFullOptions rt c prompt images resolution aspectRatio)
         = [\<lparr>URL = request_url c,
             Body = marshal_GenerateRequest (reqBody c prompt images resolution aspectRatio)\<rparr>]"
  using assms by (simp add: GenerateContentWithFullOptions_def build_request_def)

subsection \<open>generate\<close>










subsection \<open>edit\<close>







lemma load_inputs_ok:
  "\<forall>p \<in> set inputs. \<not> isl (ReadFile h p) \<Longrightarrow>
   \<exists>lines imgs. load_inputs h i inputs = (lines, Inr imgs)"
proof (induction inputs arbitrary: i)
  case Nil
  then show ?case by simp
next
  case (Cons p ps)
  then obtain b where b: "ReadFile h p = Inr b" by (cases "ReadFile h p") auto
  from Cons obtain lines imgs where "load_inputs h (i + 1) ps = (lines, Inr imgs)"
    by fastforce
  with b show ?case by (simp add: LoadImageAsBase64_def Let_def)
qed

lemma runEdit_load_ok:
  assumes "\<not> isl (ReadFile h baseImagePath)"
    and "\<forall>p \<in> set (editInputs flags). \<not> isl (ReadFile h p)"
  shows "\<exists>lines imgs. runEdit_load h flags baseImagePath = (lines, Inr imgs)"
proof -
  from assms(1) obtain b where "ReadFile h baseImagePath = Inr b"
    by (cases "ReadFile h baseImagePath") auto
  moreover from load_inputs_ok [OF assms(2)] obtain lines imgs
    where "load_inputs h 0 (editInputs flags) = (lines, Inr imgs)" by blast
  ultimately show ?thesis
    by (simp add: runEdit_load_def LoadImageAsBase64_def Let_def)
qed

lemma runEdit_validate_ok:
  assumes "Stat h baseImagePath \<noteq> StatNotExist"
    and "\<forall>p \<in> set (editInputs flags). Stat h p \<noteq> StatNotExist"
    and "1 + int (length (editInputs flags)) \<le> 14"
    and "editForce flags \<or> Stat h (edit_outputPath h flags baseImagePath) \<noteq> StatOK"
    and "editAspectRatio flags = [] \<or> editAspectRatio flags \<in> set SupportedAspectRatios"
    and "\<not> editFrugal flags \<or> editResolution flags = [] \<or> editResolution flags = ''1K''"
  shows "snd (runEdit_validate h flags baseImagePath) = None"
proof -
  have "ValidateAspectRatio (editAspectRatio flags) = None"
    using assms(5) by (auto simp: ValidateAspectRatio_def list_ex_iff)
  then show ?thesis
    using assms check_inputs_exist [OF assms(2)]
    by (auto simp: runEdit_validate_def Let_def)
qed

lemma runEdit_dispatch_sends:
  assumes "editAspectRatio flags = [] \<or> editAspectRatio flags \<in> set SupportedAspectRatios"
    and "getAPIKey (Getenv rt) \<noteq> []" and "\<forall>u. NewRequest rt u = None"
  shows "\<exists>req. snd (snd (runEdit_dispatch rt flags instruction imgs)) = [req]"
proof -
  have a: "ValidateAspectRatio (editAspectRatio flags) = None" "ValidateAspectRatio [] = None"
    using assms(1) by (auto simp: ValidateAspectRatio_def list_ex_iff)
  show ?thesis
    using assms(2) full_options_sends [OF a(1) assms(3)] full_options_sends [OF a(2) assms(3)]
    by (simp add: runEdit_dispatch_def NewClient_def NewFrugalClient_def NewClientWithModel_ok
        Let_def GenerateContentWithImages_def)
qed

lemma edit_dispatches:
  assumes "Stat h baseImagePath \<noteq> StatNotExist"
    and "\<forall>p \<in> set (editInputs flags). Stat h p \<noteq> StatNotExist"
    and "1 + int (length (editInputs flags)) \<le> 14"
    and "editForce flags \<or> Stat h (edit_outputPath h flags baseImagePath) \<noteq> StatOK"
    and "editAspectRatio flags = [] \<or> editAspectRatio flags \<in> set SupportedAspectRatios"
    and "\<not> editFrugal flags \<or> editResolution flags = [] \<or> editResolution flags = ''1K''"
    and "\<not> isl (ReadFile h baseImagePath)"
    and "\<forall>p \<in> set (editInputs flags). \<not> isl (ReadFile h p)"
    and "getAPIKey (Getenv rt) \<noteq> []" and "\<forall>u. NewRequest rt u = None"
  shows "\<exists>req. snd (snd (runEdit rt h flags baseImagePath instruction)) = [req]"
proof -
  obtain out where v: "runEdit_validate h flags baseImagePath = (out, None)"
    using runEdit_validate_ok [OF assms(1-6)] by (cases "runEdit_validate h flags baseImagePath") auto
  obtain lines imgs where l: "runEdit_load h flags baseImagePath = (lines, Inr imgs)"
    using runEdit_load_ok [OF assms(7,8)] by blast
  obtain req where "snd (snd (runEdit_dispatch rt flags instruction imgs)) = [req]"
    using runEdit_dispatch_sends [OF assms(5,9,10)] by blast
  with v l show ?thesis
    by (cases "runEdit_dispatch rt flags instruction imgs") (auto simp: runEdit_def)
qed


subsection \<open>The limit on reference images\<close>

lemma runEdit_error_cases:
  assumes "fst (snd (runEdit rt h flags baseImagePath instruction)) = Inl e"
  shows "(\<exists>out. runEdit_validate h flags baseImagePath = (out, Some e)) \<or> hd e = CHR ''f''"
proof (cases "runEdit_validate h flags baseImagePath")
  case v: (Pair out r)
  show ?thesis
  proof (cases r)
    case (Some err)
    with v assms show ?thesis by (simp add: runEdit_def)
  next
    case None
    show ?thesis
    proof (cases "runEdit_load h flags baseImagePath")
      case l: (Pair lines imgs)
      show ?thesis
      proof (cases imgs)
        case (Inl err)
        with v None l assms have "err = e" by (simp add: runEdit_def)
        with l Inl show ?thesis by (auto dest: load_hd)
      next
        case (Inr all)
        obtain info result sent
          where d: "runEdit_dispatch rt flags instruction all = (info, result, sent)"
          by (cases "runEdit_dispatch rt flags instruction all") auto
        with v None l Inr assms have "result = Inl e" by (simp add: runEdit_def)
        with d show ?thesis by (auto dest: dispatch_hd)
      qed
    qed
  qed
qed

lemma demo_key: "getAPIKey (Getenv demo_runtime) = ''secret''"
  by (simp add: getAPIKey_def keys_def demo_runtime_def demo_getenv_def)

lemma demo_new_request: "\<forall>u. NewRequest demo_runtime u = None"
  by (simp add: demo_runtime_def)

lemma demo_edit_output:
  "edit_outputPath demo_host (demo_edit_flags inputs) ''photo.png'' = ''photo-edited.png''"
  by (simp add: edit_outputPath_def demo_edit_flags_def demo_host_def Ext_def TrimSuffix_def
      suffix_to_prefix)

lemma demo_edit_conditions:
  assumes "set inputs \<subseteq> {''extra.png''}"
  shows "Stat demo_host ''photo.png'' \<noteq> StatNotExist"
    "\<forall>p \<in> set inputs. Stat demo_host p \<noteq> StatNotExist"
    "\<not> isl (ReadFile demo_host ''photo.png'')"
    "\<forall>p \<in> set inputs. \<not> isl (ReadFile demo_host p)"
  using assms by (auto simp: demo_host_def)

lemma fmt_d_14_15: "fmt_d 14 = ''14''" "fmt_d 15 = ''15''"
  by (simp_all add: fmt_d_def fmt_nat.simps digit_char_def)

text \<open>
  Claim C9. In the edit flow, with the base image and the additional inputs existing:
  a total of more than 14 images is rejected with the count-limit error, nothing is
  printed and no request is put on the wire; a total of at most 14 never yields the
  count-limit error; a total greater than 3 and at most 14 prints an advisory warning
  first and goes on.
\<close>

theorem reference_image_limit:
  assumes "Stat h baseImagePath \<noteq> StatNotExist"
    and "\<forall>p \<in> set (editInputs flags). Stat h p \<noteq> StatNotExist"
  shows "(14 < 1 + int (length (editInputs flags)) \<longrightarrow>
            runEdit rt h flags baseImagePath instruction
            = ([], Inl (''too many input images ('' @ fmt_d (1 + int (length (editInputs flags)))
                        @ ''). Maximum is 14 (base + additional)''), []))
       \<and> (1 + int (length (editInputs flags)) \<le> 14 \<longrightarrow>
            (\<forall>m. fst (snd (runEdit rt h flags baseImagePath instruction))
                 \<noteq> Inl (too_many_images m)))
       \<and> (3 < 1 + int (length (editInputs flags)) \<and> 1 + int (length (editInputs flags)) \<le> 14 \<longrightarrow>
            prefix [Warning (''Using '' @ fmt_d (1 + int (length (editInputs flags)))
                             @ '' images. API works best with 3 or fewer images.'')]
              (fst (runEdit rt h flags baseImagePath instruction)))"
proof (intro conjI impI allI)
  assume "14 < 1 + int (length (editInputs flags))"
  from validate_many [OF assms this]
  show "runEdit rt h flags baseImagePath instruction
            = ([], Inl (''too many input images ('' @ fmt_d (1 + int (length (editInputs flags)))
                        @ ''). Maximum is 14 (base + additional)''), [])"
    by (simp add: runEdit_def too_many_images_def)
next
  fix m
  assume few: "1 + int (length (editInputs flags)) \<le> 14"
  show "fst (snd (runEdit rt h flags baseImagePath instruction)) \<noteq> Inl (too_many_images m)"
  proof
    assume "fst (snd (runEdit rt h flags baseImagePath instruction)) = Inl (too_many_images m)"
    from runEdit_error_cases [OF this] validate_few [OF assms few]
    have "hd (too_many_images m) \<noteq> CHR ''t''" by auto
    then show False by (simp add: too_many_hd)
  qed
next
  assume "3 < 1 + int (length (editInputs flags)) \<and> 1 + int (length (editInputs flags)) \<le> 14"
  then have "prefix [Warning (''Using '' @ fmt_d (1 + int (length (editInputs flags)))
                             @ '' images. API works best with 3 or fewer images.'')]
              (fst (runEdit_validate h flags baseImagePath))"
    by (intro validate_warns assms) simp_all
  then show "prefix [Warning (''Using '' @ fmt_d (1 + int (length (editInputs flags)))
                             @ '' images. API works best with 3 or fewer images.'')]
              (fst (runEdit rt h flags baseImagePath instruction))"
    using runEdit_printed_prefix prefix_order.trans by blast
qed


text \<open>The theorem with fifteen images and with fourteen.\<close>

theorem reference_image_limit_witness:
  "runEdit demo_runtime demo_host (demo_edit_flags (replicate 14 ''extra.png'')) ''photo.png'' ''blend''
     = ([], Inl ''too many input images (15). Maximum is 14 (base + additional)'', [])
   \<and> fst (snd (runEdit demo_runtime demo_host (demo_edit_flags (replicate 13 ''extra.png''))
                ''photo.png'' ''blend''))
     \<noteq> Inl ''too many input images (14). Maximum is 14 (base + additional)''
   \<and> prefix [Warning ''Using 14 images. API works best with 3 or fewer images.'']
        (fst (runEdit demo_runtime demo_host (demo_edit_flags (replicate 13 ''extra.png''))
                ''photo.png'' ''blend''))
   \<and> length (snd (snd (runEdit demo_runtime demo_host (demo_edit_flags (replicate 13 ''extra.png''))
                ''photo.png'' ''blend''))) = 1"
proof -
  have in15: "editInputs (demo_edit_flags (replicate 14 ''extra.png'')) = replicate 14 ''extra.png''"
    and in14: "editInputs (demo_edit_flags (replicate 13 ''extra.png'')) = replicate 13 ''extra.png''"
    by (simp_all add: demo_edit_flags_def)
  have s15: "set (replicate 14 ''extra.png'') \<subseteq> {''extra.png''}"
    and s14: "set (replicate 13 ''extra.png'') \<subseteq> {''extra.png''}"
    by simp_all
  have e15: "\<forall>p \<in> set (editInputs (demo_edit_flags (replicate 14 ''extra.png''))).
               Stat demo_host p \<noteq> StatNotExist"
    unfolding in15 by (rule demo_edit_conditions(2) [OF s15])
  have e14: "\<forall>p \<in> set (editInputs (demo_edit_flags (replicate 13 ''extra.png''))).
               Stat demo_host p \<noteq> StatNotExist"
    unfolding in14 by (rule demo_edit_conditions(2) [OF s14])
  have base: "Stat demo_host ''photo.png'' \<noteq> StatNotExist"
    by (rule demo_edit_conditions(1) [OF s14])
  have many: "runEdit demo_runtime demo_host (demo_edit_flags (replicate 14 ''extra.png''))
                ''photo.png'' ''blend''
     = ([], Inl ''too many input images (15). Maximum is 14 (base + additional)'', [])"
    using reference_image_limit [OF base e15, of demo_runtime "''blend''"]
    by (simp add: in15 fmt_d_14_15)
  have few: "fst (snd (runEdit demo_runtime demo_host (demo_edit_flags (replicate 13 ''extra.png''))
                ''photo.png'' ''blend''))
     \<noteq> Inl ''too many input images (14). Maximum is 14 (base + additional)''
   \<and> prefix [Warning ''Using 14 images. API works best with 3 or fewer images.'']
        (fst (runEdit demo_runtime demo_host (demo_edit_flags (replicate 13 ''extra.png''))
                ''photo.png'' ''blend''))"
  proof -
    have t: "too_many_images 14 = ''too many input images (14). Maximum is 14 (base + additional)''"
      by (simp add: too_many_images_def fmt_d_14_15)
    from reference_image_limit [OF base e14, of demo_runtime "''blend''"]
    have "(\<forall>m. fst (snd (runEdit demo_runtime demo_host
                (demo_edit_flags (replicate 13 ''extra.png'')) ''photo.png'' ''blend''))
              \<noteq> Inl (too_many_images m))
          \<and> prefix [Warning ''Using 14 images. API works best with 3 or fewer images.'']
              (fst (runEdit demo_runtime demo_host (demo_edit_flags (replicate 13 ''extra.png''))
                ''photo.png'' ''blend''))"
      by (simp add: in14 fmt_d_14_15)
    then show ?thesis using t by metis
  qed
  have "\<exists>req. snd (snd (runEdit demo_runtime demo_host (demo_edit_flags (replicate 13 ''extra.png''))
                ''photo.png'' ''blend'')) = [req]"
  proof (rule edit_dispatches [OF base e14])
    show "1 + int (length (editInputs (demo_edit_flags (replicate 13 ''extra.png'')))) \<le> 14"
      by (simp add: in14)
    show "editForce (demo_edit_flags (replicate 13 ''extra.png''))
          \<or> Stat demo_host (edit_outputPath demo_host (demo_edit_flags (replicate 13 ''extra.png''))
               ''photo.png'') \<noteq> StatOK"
      by (simp add: demo_edit_output) (simp add: demo_host_def)
    show "editAspectRatio (demo_edit_flags (replicate 13 ''extra.png'')) = []
          \<or> editAspectRatio (demo_edit_flags (replicate 13 ''extra.png'')) \<in> set SupportedAspectRatios"
      by (simp add: demo_edit_flags_def)
    show "\<not> editFrugal (demo_edit_flags (replicate 13 ''extra.png''))
          \<or> editResolution (demo_edit_flags (replicate 13 ''extra.png'')) = []
          \<or> editResolution (demo_edit_flags (replicate 13 ''extra.png'')) = ''1K''"
      by (simp add: demo_edit_flags_def)
    show "\<not> isl (ReadFile demo_host ''photo.png'')"
      by (rule demo_edit_conditions(3) [OF s14])
    show "\<forall>p \<in> set (editInputs (demo_edit_flags (replicate 13 ''extra.png''))).
            \<not> isl (ReadFile demo_host p)"
      unfolding in14 by (rule demo_edit_conditions(4) [OF s14])
    show "getAPIKey (Getenv demo_runtime) \<noteq> []" by (simp add: demo_key)
    show "\<forall>u. NewRequest demo_runtime u = None" by (rule demo_new_request)
  qed
  then have "length (snd (snd (runEdit demo_runtime demo_host
      (demo_edit_flags (replicate 13 ''extra.png'')) ''photo.png'' ''blend''))) = 1"
    by auto
  with many few show ?thesis by blast
qed

subsection \<open>The frugal model and the resolution\<close>




end
